theory Spec2Isabelle
  imports Complex_Main "HOL-Library.AList"
begin

section \<open>Python values\<close>

text \<open>
  A \<open>datetime\<close> is a naive one (no time zone attached, as \<open>datetime.utcnow()\<close> returns it):
  the seconds that its calendar reading lies after the reading 1970-01-01 00:00:00. Datetimes
  are compared, and a \<open>timedelta\<close> is added to them, exactly.

  A Python float is a real number that \<open>fl\<close> below leaves unchanged, and every float
  operation of the source is the exact operation followed by \<open>fl\<close>. Overflow, subnormal
  numbers, NaN and the infinities have no counterpart in this model. The accumulator
  \<open>total_response_time\<close>, which no reported metric reads, is summed exactly.
\<close>

type_synonym datetime = real

datatype py_error = ZeroDivisionError | IndexError | ValueError | AttributeError | DatabaseError

text \<open>\<open>int(x)\<close> on a float truncates towards zero.\<close>

definition py_int :: "real \<Rightarrow> int" where
  "py_int x = (if 0 \<le> x then \<lfloor>x\<rfloor> else \<lceil>x\<rceil>)"

text \<open>Subscripting a list: \<open>xs[i]\<close> with \<open>-len \<le> i < 0\<close> reads from the end.\<close>

definition py_get :: "'a list \<Rightarrow> int \<Rightarrow> py_error + 'a" where
  "py_get xs i =
     (if 0 \<le> i \<and> i < int (length xs) then Inr (xs ! nat i)
      else if i < 0 \<and> - int (length xs) \<le> i then Inr (xs ! nat (int (length xs) + i))
      else Inl IndexError)"

text \<open>The nearest integer, a tie going to the even neighbour.\<close>

definition round_half_even :: "real \<Rightarrow> int" where
  "round_half_even y =
     (let f = \<lfloor>y\<rfloor>; d = y - of_int f
      in if d < 1 / 2 then f else if 1 / 2 < d then f + 1 else if even f then f else f + 1)"

text \<open>
  Rounding to the nearest double (binary64, 53 significant bits, ties to even): a number
  \<open>x \<noteq> 0\<close> with \<open>2\<^sup>e \<le> \<bar>x\<bar> < 2\<^sup>e\<^sup>+\<^sup>1\<close> is rounded to a multiple of \<open>2\<^sup>e\<^sup>-\<^sup>5\<^sup>2\<close>.
\<close>

definition binade :: "real \<Rightarrow> int" where
  "binade x = \<lfloor>log 2 \<bar>x\<bar>\<rfloor>"

definition fl :: "real \<Rightarrow> real" where
  "fl x =
     (if x = 0 then 0
      else of_int (round_half_even (x * 2 powr (52 - of_int (binade x))))
           * 2 powr (of_int (binade x) - 52))"

text \<open>True division \<open>a / b\<close> of two integers, which Python rounds once.\<close>

definition py_truediv :: "real \<Rightarrow> real \<Rightarrow> py_error + real" where
  "py_truediv a b = (if b = 0 then Inl ZeroDivisionError else Inr (fl (a / b)))"

text \<open>
  \<open>round(x, 2)\<close> on a float: the decimal with two places nearest to the exact value of
  \<open>x\<close> (ties to even), then the double nearest to that decimal.
\<close>

definition round2 :: "real \<Rightarrow> real" where
  "round2 x = fl (of_int (round_half_even (x * 100)) / 100)"

text \<open>
  \<open>statistics.mean\<close> of a non-empty list of floats: the exact sum is divided by the
  length and the quotient is rounded once.
\<close>

definition mean :: "real list \<Rightarrow> real" where
  "mean xs = fl (sum_list xs / of_nat (length xs))"

text \<open>A \<open>deque(maxlen=n)\<close>: appending to a full deque discards the leftmost item.\<close>

definition deque_append :: "nat \<Rightarrow> 'a list \<Rightarrow> 'a \<Rightarrow> 'a list" where
  "deque_append maxlen xs x =
     (if maxlen = 0 then xs
      else if length xs = maxlen then tl xs @ [x]
      else xs @ [x])"

section \<open>Events\<close>

datatype EventType = API_REQUEST | API_RESPONSE | API_ERROR | SYSTEM_HEALTH

record MetricsEvent =
  event_id :: string
  event_type :: EventType
  timestamp :: datetime
  service_name :: string
  api_endpoint :: string
  http_method :: string
  status_code :: int
  response_time_ms :: real

section \<open>TimeWindow\<close>

text \<open>
  One entry of \<open>service_stats\<close> or \<open>endpoint_stats\<close>; the dictionaries are insertion
  ordered, so they are association lists, and a missing key reads as the default entry.
\<close>

record Stat =
  stat_request_count :: nat
  stat_error_count :: nat
  stat_total_response_time :: real
  stat_response_times :: "real list"

definition default_stat :: Stat where
  "default_stat = \<lparr>stat_request_count = 0, stat_error_count = 0,
                    stat_total_response_time = 0, stat_response_times = []\<rparr>"

definition dd_get :: "(string \<times> Stat) list \<Rightarrow> string \<Rightarrow> Stat" where
  "dd_get d k = (case map_of d k of None \<Rightarrow> default_stat | Some v \<Rightarrow> v)"

record TimeWindow =
  window_start :: datetime
  window_end :: datetime
  duration_seconds :: int
  events :: "MetricsEvent list"
  request_count :: nat
  error_count :: nat
  total_response_time :: real
  response_times :: "real list"
  service_stats :: "(string \<times> Stat) list"
  endpoint_stats :: "(string \<times> Stat) list"

definition new_window :: "datetime \<Rightarrow> int \<Rightarrow> TimeWindow" where
  "new_window start dur =
     \<lparr>window_start = start, window_end = start + of_int dur, duration_seconds = dur,
      events = [], request_count = 0, error_count = 0, total_response_time = 0,
      response_times = [], service_stats = [], endpoint_stats = []\<rparr>"

text \<open>\<open>event.status_code and event.status_code >= 400\<close>\<close>

definition is_error :: "MetricsEvent \<Rightarrow> bool" where
  "is_error e = (status_code e \<noteq> 0 \<and> status_code e \<ge> 400)"

text \<open>The update of one per-service or per-endpoint entry by an event.\<close>

definition stat_add :: "Stat \<Rightarrow> MetricsEvent \<Rightarrow> Stat" where
  "stat_add st e =
     (let st1 = st\<lparr>stat_request_count := stat_request_count st + 1\<rparr>;
          st2 = (if is_error e then st1\<lparr>stat_error_count := stat_error_count st1 + 1\<rparr> else st1)
      in if response_time_ms e \<noteq> 0
         then st2\<lparr>stat_total_response_time := stat_total_response_time st2 + response_time_ms e,
                  stat_response_times := stat_response_times st2 @ [response_time_ms e]\<rparr>
         else st2)"

definition endpoint_key :: "MetricsEvent \<Rightarrow> string" where
  "endpoint_key e = service_name e @ '':'' @ api_endpoint e"

text \<open>\<open>TimeWindow.add_event\<close>: the returned flag and the window after the call.\<close>

definition window_add_event :: "TimeWindow \<Rightarrow> MetricsEvent \<Rightarrow> bool \<times> TimeWindow" where
  "window_add_event w e =
     (if \<not> (window_start w \<le> timestamp e \<and> timestamp e < window_end w) then (False, w)
      else
        let w1 = w\<lparr>events := events w @ [e], request_count := request_count w + 1\<rparr>;
            w2 = (if is_error e then w1\<lparr>error_count := error_count w1 + 1\<rparr> else w1);
            w3 = (if response_time_ms e \<noteq> 0
                  then w2\<lparr>total_response_time := total_response_time w2 + response_time_ms e,
                           response_times := response_times w2 @ [response_time_ms e]\<rparr>
                  else w2);
            w4 = (if service_name e \<noteq> []
                  then w3\<lparr>service_stats :=
                            AList.update (service_name e)
                              (stat_add (dd_get (service_stats w3) (service_name e)) e)
                              (service_stats w3)\<rparr>
                  else w3);
            w5 = (if api_endpoint e \<noteq> []
                  then w4\<lparr>endpoint_stats :=
                            AList.update (endpoint_key e)
                              (stat_add (dd_get (endpoint_stats w4) (endpoint_key e)) e)
                              (endpoint_stats w4)\<rparr>
                  else w4)
        in (True, w5))"

definition get_qps :: "TimeWindow \<Rightarrow> py_error + real" where
  "get_qps w = py_truediv (of_nat (request_count w)) (of_int (duration_seconds w))"

definition get_error_rate :: "TimeWindow \<Rightarrow> real" where
  "get_error_rate w =
     (if request_count w = 0 then 0
      else fl (fl (of_nat (error_count w) / of_nat (request_count w)) * 100))"

definition get_avg_response_time :: "TimeWindow \<Rightarrow> real" where
  "get_avg_response_time w = (if response_times w = [] then 0 else mean (response_times w))"

text \<open>
  The percentile routine; \<open>TimeWindow.get_percentile_response_time\<close> and
  \<open>MetricsAggregator._calculate_percentile\<close> have the same body. The length and
  \<open>floor_k\<close> are integers, which the float operations convert first.
\<close>

definition calculate_percentile :: "real list \<Rightarrow> real \<Rightarrow> py_error + real" where
  "calculate_percentile values percentile =
     (if values = [] then Inr 0
      else
        let sorted_values = sort values;
            k = fl (fl (of_nat (length sorted_values - 1)) * fl (percentile / 100));
            floor_k = py_int k;
            ceil_k = floor_k + 1
        in if ceil_k \<ge> int (length sorted_values) then py_get sorted_values (- 1)
           else
             (case py_get sorted_values floor_k of
                Inl err \<Rightarrow> Inl err
              | Inr lo \<Rightarrow>
                  (case py_get sorted_values ceil_k of
                     Inl err \<Rightarrow> Inl err
                   | Inr hi \<Rightarrow>
                       Inr (fl (lo + fl (fl (k - fl (of_int floor_k)) * fl (hi - lo)))))))"

definition get_percentile_response_time :: "TimeWindow \<Rightarrow> real \<Rightarrow> py_error + real" where
  "get_percentile_response_time w percentile = calculate_percentile (response_times w) percentile"

record WindowSummary =
  sum_window_start :: datetime
  sum_window_end :: datetime
  sum_duration_seconds :: int
  sum_request_count :: nat
  sum_error_count :: nat
  sum_qps :: real
  sum_error_rate :: real
  sum_avg_response_time :: real
  sum_p95_response_time :: real
  sum_p99_response_time :: real
  sum_service_count :: nat
  sum_endpoint_count :: nat

definition get_summary :: "TimeWindow \<Rightarrow> py_error + WindowSummary" where
  "get_summary w =
     (case get_qps w of
        Inl err \<Rightarrow> Inl err
      | Inr q \<Rightarrow>
          (case get_percentile_response_time w 95 of
             Inl err \<Rightarrow> Inl err
           | Inr p95 \<Rightarrow>
               (case get_percentile_response_time w 99 of
                  Inl err \<Rightarrow> Inl err
                | Inr p99 \<Rightarrow>
                    Inr \<lparr>sum_window_start = window_start w, sum_window_end = window_end w,
                         sum_duration_seconds = duration_seconds w,
                         sum_request_count = request_count w, sum_error_count = error_count w,
                         sum_qps = q, sum_error_rate = get_error_rate w,
                         sum_avg_response_time = get_avg_response_time w,
                         sum_p95_response_time = p95, sum_p99_response_time = p99,
                         sum_service_count = length (service_stats w),
                         sum_endpoint_count = length (endpoint_stats w)\<rparr>)))"

section \<open>MetricsAggregator\<close>

record MetricsAggregator =
  window_size_seconds :: int
  sub_window_seconds :: int
  num_sub_windows :: int
  windows :: "TimeWindow list"
  current_window :: "TimeWindow option"
  last_window_start :: "datetime option"
  total_events_processed :: nat
  aggregator_start_time :: datetime

text \<open>
  The constructor: \<open>//\<close> raises on a zero sub-window and \<open>deque\<close> refuses a negative
  \<open>maxlen\<close>. The deque's bound is \<open>num_sub_windows\<close>, fixed here.
\<close>

definition init_aggregator :: "datetime \<Rightarrow> int \<Rightarrow> int \<Rightarrow> py_error + MetricsAggregator" where
  "init_aggregator now window_size sub_window =
     (if sub_window = 0 then Inl ZeroDivisionError
      else if window_size div sub_window < 0 then Inl ValueError
      else Inr \<lparr>window_size_seconds = window_size, sub_window_seconds = sub_window,
                num_sub_windows = window_size div sub_window, windows = [],
                current_window = None, last_window_start = None,
                total_events_processed = 0, aggregator_start_time = now\<rparr>)"

text \<open>
  \<open>_get_window_start_time\<close> goes through the POSIX time: \<open>int(event_time.timestamp())\<close>
  reads the naive datetime as local time, converts it to a float and truncates it, and
  \<open>datetime.fromtimestamp\<close> goes back to local time. Both depend on the time zone of the
  process and may raise, so they are parameters of the model.
\<close>

record clock =
  posix_seconds :: "datetime \<Rightarrow> py_error + int"
  from_posix :: "int \<Rightarrow> py_error + datetime"

text \<open>
  The conversions of a process whose local time is UTC, for datetimes close enough to 1970
  (until the year 2242) for the float timestamp to tell microseconds apart.
\<close>

definition utc_clock :: clock where
  "utc_clock = \<lparr>posix_seconds = (\<lambda>t. Inr (py_int t)), from_posix = (\<lambda>n. Inr (of_int n))\<rparr>"

definition get_window_start_time :: "clock \<Rightarrow> MetricsAggregator \<Rightarrow> datetime \<Rightarrow> py_error + datetime" where
  "get_window_start_time clk s event_time =
     (case posix_seconds clk event_time of
        Inl err \<Rightarrow> Inl err
      | Inr timestamp' \<Rightarrow>
          if sub_window_seconds s = 0 then Inl ZeroDivisionError
          else from_posix clk ((timestamp' div sub_window_seconds s) * sub_window_seconds s))"

text \<open>Opening a sub-window at \<open>start\<close> as the current one.\<close>

definition open_window :: "MetricsAggregator \<Rightarrow> datetime \<Rightarrow> MetricsAggregator" where
  "open_window s start =
     s\<lparr>current_window := Some (new_window start (sub_window_seconds s)),
       last_window_start := Some start\<rparr>"

text \<open>
  \<open>_ensure_current_window\<close>: the returned window is the \<open>current_window\<close> of the
  returned state.
\<close>

definition ensure_current_window :: "clock \<Rightarrow> MetricsAggregator \<Rightarrow> datetime \<Rightarrow> py_error + MetricsAggregator" where
  "ensure_current_window clk s event_time =
     (case get_window_start_time clk s event_time of
        Inl err \<Rightarrow> Inl err
      | Inr start \<Rightarrow>
          (case current_window s of
             None \<Rightarrow> Inr (open_window s start)
           | Some cw \<Rightarrow>
               if window_start cw \<noteq> start
               then Inr (open_window
                          (s\<lparr>windows := deque_append (nat (num_sub_windows s)) (windows s) cw\<rparr>)
                          start)
               else Inr s))"

text \<open>\<open>MetricsAggregator.add_event\<close>; an exception inside is caught and logged.\<close>

definition add_event :: "clock \<Rightarrow> MetricsAggregator \<Rightarrow> MetricsEvent \<Rightarrow> MetricsAggregator" where
  "add_event clk s e =
     (if event_type e \<noteq> API_RESPONSE then s
      else
        (case ensure_current_window clk s (timestamp e) of
           Inl err \<Rightarrow> s
         | Inr s1 \<Rightarrow>
             (case current_window s1 of
                None \<Rightarrow> s1
              | Some w \<Rightarrow>
                  (case window_add_event w e of
                     (True, w') \<Rightarrow>
                       s1\<lparr>current_window := Some w',
                          total_events_processed := total_events_processed s1 + 1\<rparr>
                   | (False, w') \<Rightarrow> s1\<lparr>current_window := Some w'\<rparr>))))"

subsection \<open>Snapshots\<close>

record ScopeMetrics =
  qps :: real
  error_rate :: real
  avg_response_time :: real
  p95_response_time :: real
  p99_response_time :: real
  total_requests :: nat
  total_errors :: nat

record Snapshot =
  snap_timestamp :: datetime
  snap_window_size_seconds :: int
  active_windows :: nat
  overall :: ScopeMetrics
  services :: "(string \<times> ScopeMetrics) list"
  endpoints :: "(string \<times> ScopeMetrics) list"
  window_details :: "WindowSummary list"

text \<open>
  The seven metrics of one scope, in the order the source evaluates them. The source
  writes this computation three times (overall, per service, per endpoint).
\<close>

definition scope_metrics :: "int \<Rightarrow> nat \<Rightarrow> nat \<Rightarrow> real list \<Rightarrow> py_error + ScopeMetrics" where
  "scope_metrics window_size requests errors rts =
     (case py_truediv (of_nat requests) (of_int window_size) of
        Inl err \<Rightarrow> Inl err
      | Inr q \<Rightarrow>
          let er = (if requests > 0 then fl (fl (of_nat errors / of_nat requests) * 100) else 0);
              avg = (if rts \<noteq> [] then mean rts else 0)
          in (case calculate_percentile rts 95 of
                Inl err \<Rightarrow> Inl err
              | Inr p95 \<Rightarrow>
                  (case calculate_percentile rts 99 of
                     Inl err \<Rightarrow> Inl err
                   | Inr p99 \<Rightarrow>
                       Inr \<lparr>qps = round2 q, error_rate = round2 er,
                            avg_response_time = round2 avg,
                            p95_response_time = round2 p95, p99_response_time = round2 p99,
                            total_requests = requests, total_errors = errors\<rparr>)))"

record Agg =
  agg_request_count :: nat
  agg_error_count :: nat
  agg_response_times :: "real list"

definition default_agg :: Agg where
  "default_agg = \<lparr>agg_request_count = 0, agg_error_count = 0, agg_response_times = []\<rparr>"

definition agg_get :: "(string \<times> Agg) list \<Rightarrow> string \<Rightarrow> Agg" where
  "agg_get d k = (case map_of d k of None \<Rightarrow> default_agg | Some v \<Rightarrow> v)"

definition agg_add :: "(string \<times> Agg) list \<Rightarrow> string \<times> Stat \<Rightarrow> (string \<times> Agg) list" where
  "agg_add d item =
     (case item of (name, stats) \<Rightarrow>
        let a = agg_get d name
        in AList.update name
             \<lparr>agg_request_count = agg_request_count a + stat_request_count stats,
              agg_error_count = agg_error_count a + stat_error_count stats,
              agg_response_times = agg_response_times a @ stat_response_times stats\<rparr> d)"

fun scope_results :: "int \<Rightarrow> (string \<times> Agg) list \<Rightarrow> py_error + (string \<times> ScopeMetrics) list" where
  "scope_results window_size [] = Inr []"
| "scope_results window_size ((name, a) # rest) =
     (case scope_metrics window_size (agg_request_count a) (agg_error_count a) (agg_response_times a) of
        Inl err \<Rightarrow> Inl err
      | Inr m \<Rightarrow>
          (case scope_results window_size rest of
             Inl err \<Rightarrow> Inl err
           | Inr ms \<Rightarrow> Inr ((name, m) # ms)))"

text \<open>
  The body shared by \<open>_aggregate_service_metrics\<close> and \<open>_aggregate_endpoint_metrics\<close>,
  over the per-window dictionaries in window order.
\<close>

definition aggregate_stats :: "int \<Rightarrow> (string \<times> Stat) list list \<Rightarrow> py_error + (string \<times> ScopeMetrics) list" where
  "aggregate_stats window_size dicts = scope_results window_size (foldl agg_add [] (concat dicts))"

definition aggregate_service_metrics :: "MetricsAggregator \<Rightarrow> TimeWindow list \<Rightarrow> py_error + (string \<times> ScopeMetrics) list" where
  "aggregate_service_metrics s ws = aggregate_stats (window_size_seconds s) (map service_stats ws)"

definition aggregate_endpoint_metrics :: "MetricsAggregator \<Rightarrow> TimeWindow list \<Rightarrow> py_error + (string \<times> ScopeMetrics) list" where
  "aggregate_endpoint_metrics s ws = aggregate_stats (window_size_seconds s) (map endpoint_stats ws)"

definition zero_metrics :: ScopeMetrics where
  "zero_metrics = \<lparr>qps = 0, error_rate = 0, avg_response_time = 0, p95_response_time = 0,
                    p99_response_time = 0, total_requests = 0, total_errors = 0\<rparr>"

definition empty_metrics :: "datetime \<Rightarrow> MetricsAggregator \<Rightarrow> Snapshot" where
  "empty_metrics now s =
     \<lparr>snap_timestamp = now, snap_window_size_seconds = window_size_seconds s,
      active_windows = 0, overall = zero_metrics, services = [], endpoints = [],
      window_details = []\<rparr>"

fun summaries :: "TimeWindow list \<Rightarrow> py_error + WindowSummary list" where
  "summaries [] = Inr []"
| "summaries (w # ws) =
     (case get_summary w of
        Inl err \<Rightarrow> Inl err
      | Inr x \<Rightarrow> (case summaries ws of Inl err \<Rightarrow> Inl err | Inr xs \<Rightarrow> Inr (x # xs)))"

definition all_windows :: "MetricsAggregator \<Rightarrow> TimeWindow list" where
  "all_windows s = windows s @ (case current_window s of None \<Rightarrow> [] | Some w \<Rightarrow> [w])"

text \<open>
  \<open>get_current_metrics\<close>, given the reading \<open>now\<close> of the clock. It reads the state and
  changes none of it.
\<close>

definition get_current_metrics :: "datetime \<Rightarrow> MetricsAggregator \<Rightarrow> py_error + Snapshot" where
  "get_current_metrics now s =
     (let ws = all_windows s
      in if ws = [] then Inr (empty_metrics now s)
         else
           let total_requests' = sum_list (map request_count ws);
               total_errors' = sum_list (map error_count ws);
               all_response_times = concat (map response_times ws)
           in (case scope_metrics (window_size_seconds s) total_requests' total_errors' all_response_times of
                 Inl err \<Rightarrow> Inl err
               | Inr ov \<Rightarrow>
                   (case aggregate_service_metrics s ws of
                      Inl err \<Rightarrow> Inl err
                    | Inr sm \<Rightarrow>
                        (case aggregate_endpoint_metrics s ws of
                           Inl err \<Rightarrow> Inl err
                         | Inr em \<Rightarrow>
                             (case summaries (drop (length ws - 5) ws) of
                                Inl err \<Rightarrow> Inl err
                              | Inr details \<Rightarrow>
                                  Inr \<lparr>snap_timestamp = now,
                                       snap_window_size_seconds = window_size_seconds s,
                                       active_windows = length ws, overall = ov,
                                       services = sm, endpoints = em,
                                       window_details = details\<rparr>)))))"

section \<open>AlertManager\<close>

datatype AlertSeverity = LOW | MEDIUM | HIGH | CRITICAL

datatype AlertStatus = TRIGGERED | RESOLVED | ACKNOWLEDGED

text \<open>
  The fields \<open>id\<close>, \<open>name\<close>, \<open>threshold\<close>, \<open>severity\<close>, \<open>service_name\<close>, \<open>endpoint\<close>
  and \<open>duration_seconds\<close> of a rule carry the prefix \<open>r_\<close>; the \<open>id\<close> of an alert is
  \<open>alert_id\<close> and its \<open>service_name\<close> is \<open>a_service_name\<close>. The text of \<open>message\<close>,
  which formats floats, is left out of the model, and the display names of the
  built-in rules are given in English.
\<close>

record AlertRule =
  r_id :: string
  r_name :: string
  metric_type :: string
  operator :: string
  r_threshold :: real
  r_severity :: AlertSeverity
  r_service_name :: "string option"
  r_endpoint :: "string option"
  r_duration_seconds :: int
  enabled :: bool
  created_at :: datetime

record Alert =
  alert_id :: string
  rule_id :: string
  rule_name :: string
  severity :: AlertSeverity
  status :: AlertStatus
  metric_value :: real
  threshold :: real
  a_service_name :: "string option"
  endpoint :: "string option"
  triggered_at :: datetime
  resolved_at :: "datetime option"
  acknowledged_at :: "datetime option"

text \<open>Truth value of an optional string: \<open>None\<close> and the empty string are false.\<close>

definition truthy :: "string option \<Rightarrow> bool" where
  "truthy x = (case x of None \<Rightarrow> False | Some t \<Rightarrow> t \<noteq> [])"

text \<open>A metrics dictionary of one scope, and the argument of \<open>check_metrics\<close>.\<close>

type_synonym metrics = "(string \<times> real) list"

record MetricsData =
  md_overall :: metrics
  md_services :: "(string \<times> metrics) list"
  md_endpoints :: "(string \<times> metrics) list"

definition scope_dict :: "ScopeMetrics \<Rightarrow> metrics" where
  "scope_dict m =
     [(''qps'', qps m), (''error_rate'', error_rate m),
      (''avg_response_time'', avg_response_time m),
      (''p95_response_time'', p95_response_time m),
      (''p99_response_time'', p99_response_time m),
      (''total_requests'', of_nat (total_requests m)),
      (''total_errors'', of_nat (total_errors m))]"

definition snapshot_data :: "Snapshot \<Rightarrow> MetricsData" where
  "snapshot_data snap =
     \<lparr>md_overall = scope_dict (overall snap),
      md_services = map (\<lambda>(k, m). (k, scope_dict m)) (services snap),
      md_endpoints = map (\<lambda>(k, m). (k, scope_dict m)) (endpoints snap)\<rparr>"

text \<open>
  Alerts are objects shared by \<open>active_alerts\<close> and \<open>alert_history\<close>, and resolving one
  mutates it in place: the objects live in \<open>alert_objects\<close> and both containers hold
  positions in it. A callback is known by its name; \<open>notifications\<close> records every call
  of a callback with the alert as it was passed. The clock is read once per call.
\<close>

type_synonym callback = string

record AlertManager =
  alert_rules :: "(string \<times> AlertRule) list"
  alert_objects :: "Alert list"
  active_alerts :: "(string \<times> nat) list"
  alert_history :: "nat list"
  max_history_size :: nat
  alert_callbacks :: "callback list"
  total_alerts_triggered :: nat
  total_alerts_resolved :: nat
  rule_checks_performed :: nat
  last_check_time :: "datetime option"
  start_time :: datetime
  notifications :: "(callback \<times> Alert) list"

definition default_rules :: "datetime \<Rightarrow> AlertRule list" where
  "default_rules now =
     [\<lparr>r_id = ''high_error_rate'', r_name = ''high error rate'', metric_type = ''error_rate'',
       operator = ''>'', r_threshold = 5, r_severity = HIGH, r_service_name = None,
       r_endpoint = None, r_duration_seconds = 60, enabled = True, created_at = now\<rparr>,
      \<lparr>r_id = ''critical_error_rate'', r_name = ''critical error rate'',
       metric_type = ''error_rate'', operator = ''>'', r_threshold = 10,
       r_severity = CRITICAL, r_service_name = None, r_endpoint = None,
       r_duration_seconds = 30, enabled = True, created_at = now\<rparr>,
      \<lparr>r_id = ''high_response_time'', r_name = ''high response time'',
       metric_type = ''p95_response_time'', operator = ''>'', r_threshold = 1000,
       r_severity = MEDIUM, r_service_name = None, r_endpoint = None,
       r_duration_seconds = 120, enabled = True, created_at = now\<rparr>,
      \<lparr>r_id = ''critical_response_time'', r_name = ''critical response time'',
       metric_type = ''p99_response_time'', operator = ''>'', r_threshold = 5000,
       r_severity = CRITICAL, r_service_name = None, r_endpoint = None,
       r_duration_seconds = 60, enabled = True, created_at = now\<rparr>,
      \<lparr>r_id = ''low_qps'', r_name = ''low qps'', metric_type = ''qps'', operator = ''<'',
       r_threshold = 1, r_severity = LOW, r_service_name = None, r_endpoint = None,
       r_duration_seconds = 300, enabled = True, created_at = now\<rparr>]"

definition init_alert_manager :: "datetime \<Rightarrow> AlertManager" where
  "init_alert_manager now =
     \<lparr>alert_rules = foldl (\<lambda>d r. AList.update (r_id r) r d) [] (default_rules now),
      alert_objects = [], active_alerts = [], alert_history = [], max_history_size = 1000,
      alert_callbacks = [], total_alerts_triggered = 0, total_alerts_resolved = 0,
      rule_checks_performed = 0, last_check_time = None, start_time = now,
      notifications = []\<rparr>"

definition add_alert_rule :: "AlertManager \<Rightarrow> AlertRule \<Rightarrow> AlertManager" where
  "add_alert_rule s r = s\<lparr>alert_rules := AList.update (r_id r) r (alert_rules s)\<rparr>"

definition add_alert_callback :: "AlertManager \<Rightarrow> callback \<Rightarrow> AlertManager" where
  "add_alert_callback s cb = s\<lparr>alert_callbacks := alert_callbacks s @ [cb]\<rparr>"

definition evaluate_condition :: "real \<Rightarrow> string \<Rightarrow> real \<Rightarrow> bool" where
  "evaluate_condition v op thr =
     (if op = ''>'' then v > thr
      else if op = ''<'' then v < thr
      else if op = ''>='' then v \<ge> thr
      else if op = ''<='' then v \<le> thr
      else if op = ''=='' then \<bar>fl (v - thr)\<bar> < fl (1 / 1000)
      else False)"

fun join_colon :: "string list \<Rightarrow> string" where
  "join_colon [] = []"
| "join_colon [p] = p"
| "join_colon (p # ps) = p @ '':'' @ join_colon ps"

definition generate_alert_id :: "AlertRule \<Rightarrow> string option \<Rightarrow> string option \<Rightarrow> string" where
  "generate_alert_id rule service endpoint' =
     join_colon ([r_id rule]
       @ (case service of None \<Rightarrow> [] | Some t \<Rightarrow> if t \<noteq> [] then [t] else [])
       @ (case endpoint' of None \<Rightarrow> [] | Some t \<Rightarrow> if t \<noteq> [] then [t] else []))"

text \<open>\<open>history[-n:]\<close>; with \<open>n = 0\<close> the slice is the whole list.\<close>

definition last_items :: "nat \<Rightarrow> 'a list \<Rightarrow> 'a list" where
  "last_items n xs = (if n = 0 then xs else drop (length xs - n) xs)"

definition trigger_alert :: "AlertManager \<Rightarrow> Alert \<Rightarrow> AlertManager" where
  "trigger_alert s alert =
     (let ref = length (alert_objects s);
          history = alert_history s @ [ref]
      in s\<lparr>alert_objects := alert_objects s @ [alert],
           active_alerts := AList.update (alert_id alert) ref (active_alerts s),
           alert_history := (if length history > max_history_size s
                             then last_items (max_history_size s) history else history),
           total_alerts_triggered := total_alerts_triggered s + 1,
           notifications := notifications s @ map (\<lambda>cb. (cb, alert)) (alert_callbacks s)\<rparr>)"

definition resolve_alert :: "datetime \<Rightarrow> AlertManager \<Rightarrow> string \<Rightarrow> AlertManager" where
  "resolve_alert now s aid =
     (case map_of (active_alerts s) aid of
        None \<Rightarrow> s
      | Some ref \<Rightarrow>
          let alert = (alert_objects s ! ref)\<lparr>status := RESOLVED, resolved_at := Some now\<rparr>
          in s\<lparr>alert_objects := (alert_objects s)[ref := alert],
               active_alerts := AList.delete aid (active_alerts s),
               total_alerts_resolved := total_alerts_resolved s + 1,
               notifications := notifications s @ map (\<lambda>cb. (cb, alert)) (alert_callbacks s)\<rparr>)"

definition evaluate_rule ::
  "datetime \<Rightarrow> AlertManager \<Rightarrow> AlertRule \<Rightarrow> metrics \<Rightarrow> string option \<Rightarrow> string option \<Rightarrow> AlertManager" where
  "evaluate_rule now s rule m service endpoint' =
     (case map_of m (metric_type rule) of
        None \<Rightarrow> s
      | Some v \<Rightarrow>
          let condition_met = evaluate_condition v (operator rule) (r_threshold rule);
              aid = generate_alert_id rule service endpoint'
          in if condition_met
             then (if map_of (active_alerts s) aid = None
                   then trigger_alert s
                          \<lparr>alert_id = aid, rule_id = r_id rule, rule_name = r_name rule,
                           severity = r_severity rule, status = TRIGGERED, metric_value = v,
                           threshold = r_threshold rule, a_service_name = service,
                           endpoint = endpoint', triggered_at = now, resolved_at = None,
                           acknowledged_at = None\<rparr>
                   else s)
             else (if map_of (active_alerts s) aid \<noteq> None then resolve_alert now s aid else s))"

text \<open>The three filters: a rule for which the filter is true is skipped.\<close>

definition skipped_overall :: "AlertRule \<Rightarrow> bool" where
  "skipped_overall rule =
     (\<not> enabled rule \<or> truthy (r_service_name rule) \<or> truthy (r_endpoint rule))"

definition skipped_service :: "AlertRule \<Rightarrow> string \<Rightarrow> bool" where
  "skipped_service rule service =
     (\<not> enabled rule
      \<or> (truthy (r_service_name rule) \<and> r_service_name rule \<noteq> Some service)
      \<or> truthy (r_endpoint rule))"

definition skipped_endpoint :: "AlertRule \<Rightarrow> string option \<Rightarrow> string option \<Rightarrow> bool" where
  "skipped_endpoint rule service endpoint' =
     (\<not> enabled rule
      \<or> (truthy (r_service_name rule) \<and> r_service_name rule \<noteq> service)
      \<or> (truthy (r_endpoint rule) \<and> r_endpoint rule \<noteq> endpoint'))"

definition check_overall_metrics :: "datetime \<Rightarrow> AlertManager \<Rightarrow> metrics \<Rightarrow> AlertManager" where
  "check_overall_metrics now s m =
     foldl (\<lambda>st rule. if skipped_overall rule then st
                       else evaluate_rule now st rule m None None)
       s (map snd (alert_rules s))"

definition check_service_metrics :: "datetime \<Rightarrow> AlertManager \<Rightarrow> string \<Rightarrow> metrics \<Rightarrow> AlertManager" where
  "check_service_metrics now s service m =
     foldl (\<lambda>st rule. if skipped_service rule service then st
                       else evaluate_rule now st rule m (Some service) None)
       s (map snd (alert_rules s))"

text \<open>\<open>endpoint_key.split(":", 1)\<close> when the key has a colon.\<close>

definition split_key :: "string \<Rightarrow> string option \<times> string option" where
  "split_key k =
     (if CHR '':'' \<in> set k
      then (Some (takeWhile (\<lambda>c. c \<noteq> CHR '':'') k),
            Some (tl (dropWhile (\<lambda>c. c \<noteq> CHR '':'') k)))
      else (None, Some k))"

definition check_endpoint_metrics :: "datetime \<Rightarrow> AlertManager \<Rightarrow> string \<Rightarrow> metrics \<Rightarrow> AlertManager" where
  "check_endpoint_metrics now s k m =
     (case split_key k of (service, endpoint') \<Rightarrow>
        foldl (\<lambda>st rule. if skipped_endpoint rule service endpoint' then st
                          else evaluate_rule now st rule m service endpoint')
          s (map snd (alert_rules s)))"

definition check_metrics :: "datetime \<Rightarrow> AlertManager \<Rightarrow> MetricsData \<Rightarrow> AlertManager" where
  "check_metrics now s md =
     (let s1 = s\<lparr>rule_checks_performed := rule_checks_performed s + 1,
                 last_check_time := Some now\<rparr>;
          s2 = check_overall_metrics now s1 (md_overall md);
          s3 = foldl (\<lambda>st (name, m). check_service_metrics now st name m) s2 (md_services md)
      in foldl (\<lambda>st (k, m). check_endpoint_metrics now st k m) s3 (md_endpoints md))"

section \<open>StorageManager\<close>

record MetricRow =
  row_timestamp :: datetime
  row_window_start :: datetime
  row_window_end :: datetime
  row_service_name :: "string option"
  row_endpoint :: "string option"
  row_metric_type :: string
  row_metrics :: ScopeMetrics
  row_additional_data :: "(string \<times> int) list"

text \<open>What the log receives, and what the database does with an insert.\<close>

datatype log_entry = BatchWriteDone nat | BatchWriteFailed py_error

datatype db_outcome = InsertOk | AcquireRaises | InsertRaises

record StorageManager =
  batch_size :: int
  batch_timeout_seconds :: int
  redis_ttl_seconds :: int
  pending_metrics :: "MetricRow list"
  last_batch_time :: datetime
  postgres_pool :: "unit option"
  total_postgres_writes :: nat
  total_redis_writes :: nat
  batch_writes :: nat
  failed_writes :: nat
  last_write_time :: "datetime option"
  storage_start_time :: datetime
  storage_log :: "log_entry list"

definition init_storage_manager :: "datetime \<Rightarrow> int \<Rightarrow> int \<Rightarrow> int \<Rightarrow> StorageManager" where
  "init_storage_manager now bs bt ttl =
     \<lparr>batch_size = bs, batch_timeout_seconds = bt, redis_ttl_seconds = ttl,
      pending_metrics = [], last_batch_time = now, postgres_pool = None,
      total_postgres_writes = 0, total_redis_writes = 0, batch_writes = 0,
      failed_writes = 0, last_write_time = None, storage_start_time = now,
      storage_log = []\<rparr>"

definition add_to_batch :: "StorageManager \<Rightarrow> Snapshot \<Rightarrow> StorageManager" where
  "add_to_batch s snap =
     (let ts = snap_timestamp snap;
          ws = ts - of_int (snap_window_size_seconds snap);
          overall_record =
            \<lparr>row_timestamp = ts, row_window_start = ws, row_window_end = ts,
             row_service_name = None, row_endpoint = None, row_metric_type = ''overall'',
             row_metrics = overall snap,
             row_additional_data =
               [(''active_windows'', int (active_windows snap)),
                (''window_size_seconds'', snap_window_size_seconds snap)]\<rparr>;
          service_records =
            map (\<lambda>(name, m).
                   \<lparr>row_timestamp = ts, row_window_start = ws, row_window_end = ts,
                    row_service_name = Some name, row_endpoint = None,
                    row_metric_type = ''service'', row_metrics = m,
                    row_additional_data = []\<rparr>) (services snap);
          endpoint_records =
            map (\<lambda>(k, m).
                   \<lparr>row_timestamp = ts, row_window_start = ws, row_window_end = ts,
                    row_service_name = fst (split_key k), row_endpoint = snd (split_key k),
                    row_metric_type = ''endpoint'', row_metrics = m,
                    row_additional_data = []\<rparr>) (endpoints snap)
      in s\<lparr>pending_metrics :=
             pending_metrics s @ [overall_record] @ service_records @ endpoint_records\<rparr>)"

text \<open>
  The body of the \<open>try\<close> in \<open>_execute_batch_write\<close>: borrowing a connection from a pool
  that was never created raises, as may the borrow and the insert themselves; the
  statistics and the buffer change only after the insert has returned.
\<close>

definition try_batch_insert :: "datetime \<Rightarrow> db_outcome \<Rightarrow> StorageManager \<Rightarrow> py_error + StorageManager" where
  "try_batch_insert now outcome s =
     (case postgres_pool s of
        None \<Rightarrow> Inl AttributeError
      | Some pool \<Rightarrow>
          (case outcome of
             AcquireRaises \<Rightarrow> Inl DatabaseError
           | InsertRaises \<Rightarrow> Inl DatabaseError
           | InsertOk \<Rightarrow>
               Inr (s\<lparr>total_postgres_writes :=
                         total_postgres_writes s + length (pending_metrics s),
                       batch_writes := batch_writes s + 1,
                       last_write_time := Some now,
                       storage_log := storage_log s @ [BatchWriteDone (length (pending_metrics s))],
                       pending_metrics := [],
                       last_batch_time := now\<rparr>)))"

text \<open>\<open>_execute_batch_write\<close>: \<open>Inl\<close> would be an exception leaving the call.\<close>

definition execute_batch_write :: "datetime \<Rightarrow> db_outcome \<Rightarrow> StorageManager \<Rightarrow> py_error + StorageManager" where
  "execute_batch_write now outcome s =
     (if pending_metrics s = [] then Inr s
      else
        (case try_batch_insert now outcome s of
           Inr s' \<Rightarrow> Inr s'
         | Inl err \<Rightarrow>
             Inr (s\<lparr>storage_log := storage_log s @ [BatchWriteFailed err],
                     failed_writes := failed_writes s + 1,
                     pending_metrics := [],
                     last_batch_time := now\<rparr>)))"

definition check_batch_write :: "datetime \<Rightarrow> db_outcome \<Rightarrow> StorageManager \<Rightarrow> py_error + StorageManager" where
  "check_batch_write now outcome s =
     (let time_since_last_batch = fl (now - last_batch_time s)
      in if int (length (pending_metrics s)) \<ge> batch_size s
            \<or> time_since_last_batch \<ge> of_int (batch_timeout_seconds s)
         then execute_batch_write now outcome s
         else Inr s)"

section \<open>Scenario inputs\<close>

text \<open>
  Concrete events and states used by the examples below. The aggregator of the examples
  runs with the conversions of a UTC process, and a decimal literal of the source such
  as \<open>33.33\<close> is the double \<open>fl (3333 / 100)\<close>.
\<close>

definition response_event :: "datetime \<Rightarrow> int \<Rightarrow> real \<Rightarrow> MetricsEvent" where
  "response_event t code rt =
     \<lparr>event_id = ''evt'', event_type = API_RESPONSE, timestamp = t, service_name = ''svc'',
      api_endpoint = ''/predict'', http_method = ''POST'', status_code = code,
      response_time_ms = rt\<rparr>"

definition fresh_aggregator :: MetricsAggregator where
  "fresh_aggregator =
     \<lparr>window_size_seconds = 60, sub_window_seconds = 5, num_sub_windows = 12, windows = [],
      current_window = None, last_window_start = None, total_events_processed = 0,
      aggregator_start_time = 0\<rparr>"


definition eviction_scenario :: MetricsAggregator where
  "eviction_scenario =
     add_event utc_clock
       (foldl (add_event utc_clock) fresh_aggregator (replicate 50 (response_event 0 200 100)))
       (response_event 65 200 200)"

definition mixed_errors_scenario :: MetricsAggregator where
  "mixed_errors_scenario =
     foldl (add_event utc_clock) fresh_aggregator
       (replicate 95 (response_event 1 200 100) @ replicate 5 (response_event 2 500 100))"

definition many_errors_scenario :: MetricsAggregator where
  "many_errors_scenario =
     foldl (add_event utc_clock) fresh_aggregator
       (replicate 137 (response_event 1 200 100) @ replicate 23 (response_event 2 500 100))"






definition three_requests_one_error :: MetricsAggregator where
  "three_requests_one_error =
     foldl (add_event utc_clock) fresh_aggregator
       [response_event 1 200 100, response_event 2 200 100, response_event 3 500 100]"

definition three_requests_metrics :: ScopeMetrics where
  "three_requests_metrics =
     \<lparr>qps = fl (1 / 20), error_rate = fl (3333 / 100), avg_response_time = 100,
      p95_response_time = 100, p99_response_time = 100, total_requests = 3,
      total_errors = 1\<rparr>"

definition three_requests_snapshot :: Snapshot where
  "three_requests_snapshot =
     \<lparr>snap_timestamp = 10, snap_window_size_seconds = 60, active_windows = 1,
      overall = three_requests_metrics,
      services = [(''svc'', three_requests_metrics)],
      endpoints = [(''svc:/predict'', three_requests_metrics)],
      window_details =
        [\<lparr>sum_window_start = 0, sum_window_end = 5, sum_duration_seconds = 5,
          sum_request_count = 3, sum_error_count = 1, sum_qps = fl (3 / 5),
          sum_error_rate = fl (fl (1 / 3) * 100), sum_avg_response_time = 100,
          sum_p95_response_time = 100, sum_p99_response_time = 100,
          sum_service_count = 1, sum_endpoint_count = 1\<rparr>]\<rparr>"

definition only_high_error_rate :: AlertManager where
  "only_high_error_rate =
     (init_alert_manager 0)
       \<lparr>alert_rules :=
          map (\<lambda>(k, r). (k, r\<lparr>enabled := (k = ''high_error_rate'')\<rparr>))
            (alert_rules (init_alert_manager 0)),
        alert_callbacks := [''notify'']\<rparr>"

definition high_error_rate_rule :: AlertRule where
  "high_error_rate_rule = hd (default_rules 0)"

definition alerting_manager :: AlertManager where
  "alerting_manager = check_metrics 20 only_high_error_rate (snapshot_data three_requests_snapshot)"

definition pending_storage :: StorageManager where
  "pending_storage =
     add_to_batch ((init_storage_manager 0 100 5 300)\<lparr>postgres_pool := Some ()\<rparr>)
       three_requests_snapshot"



definition six_percent_metrics :: ScopeMetrics where
  "six_percent_metrics =
     \<lparr>qps = 5 / 2, error_rate = 6, avg_response_time = 100, p95_response_time = 100,
      p99_response_time = 100, total_requests = 150, total_errors = 9\<rparr>"

definition five_percent_metrics :: ScopeMetrics where
  "five_percent_metrics =
     \<lparr>qps = 2, error_rate = 5, avg_response_time = 100, p95_response_time = 100,
      p99_response_time = 100, total_requests = 120, total_errors = 6\<rparr>"

definition overall_only :: "ScopeMetrics \<Rightarrow> MetricsData" where
  "overall_only mt = \<lparr>md_overall = scope_dict mt, md_services = [], md_endpoints = []\<rparr>"

section \<open>State invariants of the aggregator\<close>

text \<open>No sub-window counts more errors than requests.\<close>

definition counts_ok :: "MetricsAggregator \<Rightarrow> bool" where
  "counts_ok s = (\<forall>w \<in> set (all_windows s). error_count w \<le> request_count w)"

text \<open>
  A start is aligned when it is the local time of a POSIX second that is a multiple of
  the sub-window length; the starts of the live sub-windows, sealed ones first, increase
  strictly; an event is not earlier than the current sub-window when its bucket does
  not start before it.
\<close>

definition is_aligned :: "clock \<Rightarrow> int \<Rightarrow> datetime \<Rightarrow> bool" where
  "is_aligned clk sub t = (\<exists>a. a mod sub = 0 \<and> from_posix clk a = Inr t)"






section \<open>The rule evaluations of one check\<close>

text \<open>
  The calls of \<open>_evaluate_rule\<close> that one \<open>check_metrics\<close> makes over the rules \<open>rules\<close>:
  each with its rule, the metrics dictionary, the service and the endpoint, in the
  order of the calls.
\<close>

type_synonym evaluation = "AlertRule \<times> metrics \<times> string option \<times> string option"

definition overall_evaluations :: "AlertRule list \<Rightarrow> metrics \<Rightarrow> evaluation list" where
  "overall_evaluations rules m =
     map (\<lambda>rule. (rule, m, None, None)) (filter (\<lambda>rule. \<not> skipped_overall rule) rules)"

definition service_evaluations :: "AlertRule list \<Rightarrow> string \<Rightarrow> metrics \<Rightarrow> evaluation list" where
  "service_evaluations rules name m =
     map (\<lambda>rule. (rule, m, Some name, None)) (filter (\<lambda>rule. \<not> skipped_service rule name) rules)"

definition endpoint_evaluations :: "AlertRule list \<Rightarrow> string \<Rightarrow> metrics \<Rightarrow> evaluation list" where
  "endpoint_evaluations rules k m =
     map (\<lambda>rule. (rule, m, fst (split_key k), snd (split_key k)))
       (filter (\<lambda>rule. \<not> skipped_endpoint rule (fst (split_key k)) (snd (split_key k))) rules)"

definition evaluations :: "AlertRule list \<Rightarrow> MetricsData \<Rightarrow> evaluation list" where
  "evaluations rules md =
     overall_evaluations rules (md_overall md)
     @ concat (map (\<lambda>(name, m). service_evaluations rules name m) (md_services md))
     @ concat (map (\<lambda>(k, m). endpoint_evaluations rules k m) (md_endpoints md))"

definition run_evaluations :: "datetime \<Rightarrow> AlertManager \<Rightarrow> evaluation list \<Rightarrow> AlertManager" where
  "run_evaluations now s evs =
     foldl (\<lambda>st (rule, m, service, endpoint'). evaluate_rule now st rule m service endpoint') s evs"

section \<open>Properties of float rounding\<close>

lemma round_half_even_of_int: "round_half_even (of_int m) = m"
  by (simp add: round_half_even_def)

lemma round_half_even_mono: "a \<le> b \<Longrightarrow> round_half_even a \<le> round_half_even b"
proof -
  assume ab: "a \<le> b"
  have fab: "\<lfloor>a\<rfloor> \<le> \<lfloor>b\<rfloor>" using ab by (rule floor_mono)
  show ?thesis
  proof (cases "\<lfloor>a\<rfloor> = \<lfloor>b\<rfloor>")
    case True
    then show ?thesis using ab by (auto simp add: round_half_even_def Let_def)
  next
    case False
    hence "\<lfloor>a\<rfloor> + 1 \<le> \<lfloor>b\<rfloor>" using fab by simp
    moreover have "round_half_even a \<le> \<lfloor>a\<rfloor> + 1" by (simp add: round_half_even_def Let_def)
    moreover have "\<lfloor>b\<rfloor> \<le> round_half_even b" by (simp add: round_half_even_def Let_def)
    ultimately show ?thesis by linarith
  qed
qed

lemma round_half_even_bounds:
  "of_int a \<le> y \<Longrightarrow> y \<le> of_int b \<Longrightarrow> a \<le> round_half_even y \<and> round_half_even y \<le> b"
  using round_half_even_mono[of "of_int a" y] round_half_even_mono[of y "of_int b"]
  by (simp add: round_half_even_of_int)

lemma binade_bounds:
  assumes "x \<noteq> 0"
  shows "2 powr (of_int (binade x)) \<le> \<bar>x\<bar>" and "\<bar>x\<bar> < 2 powr (of_int (binade x) + 1)"
proof -
  have pos: "0 < \<bar>x\<bar>" using assms by simp
  have "\<lfloor>log 2 \<bar>x\<bar>\<rfloor> = binade x" by (simp add: binade_def)
  hence "2 powr (of_int (binade x)) \<le> \<bar>x\<bar> \<and> \<bar>x\<bar> < 2 powr (of_int (binade x + 1))"
    using floor_log_eq_powr_iff[OF pos, of 2 "binade x"] by simp
  thus "2 powr (of_int (binade x)) \<le> \<bar>x\<bar>" and "\<bar>x\<bar> < 2 powr (of_int (binade x) + 1)"
    by simp_all
qed

lemma binade_eqI:
  assumes "2 powr (of_int k) \<le> \<bar>x\<bar>" and "\<bar>x\<bar> < 2 powr (of_int k + 1)"
  shows "binade x = k"
proof -
  have "0 < 2 powr (of_int k :: real)" by simp
  hence pos: "0 < \<bar>x\<bar>" using assms(1) by linarith
  show ?thesis unfolding binade_def
    using floor_log_eq_powr_iff[OF pos, of 2 k] assms by simp
qed

lemma binade_mono:
  assumes "0 < x" and "x \<le> y"
  shows "binade x \<le> binade y"
proof -
  have "log 2 x \<le> log 2 y" using assms by simp
  hence "\<lfloor>log 2 x\<rfloor> \<le> \<lfloor>log 2 y\<rfloor>" by (rule floor_mono)
  thus ?thesis using assms by (simp add: binade_def)
qed

lemma fl_zero [simp]: "fl 0 = 0"
  by (simp add: fl_def)

text \<open>
  Evaluating \<open>fl\<close>: when \<open>x\<close> scaled by a power of two lies between \<open>2\<^sup>5\<^sup>2\<close> and \<open>2\<^sup>5\<^sup>3\<close>, the
  double is the scaled number rounded to an integer, scaled back.
\<close>

lemma fl_eval:
  assumes lo: "2 ^ 52 \<le> \<bar>x\<bar> * 2 ^ n" and hi: "\<bar>x\<bar> * 2 ^ n < 2 ^ 53"
  shows "fl x = of_int (round_half_even (x * 2 ^ n)) / 2 ^ n"
proof -
  have nz: "x \<noteq> 0" using lo by auto
  have p: "(2 :: real) powr (52 - of_nat n) = 2 ^ 52 / 2 ^ n"
    by (simp add: powr_diff powr_realpow)
  have p1: "(2 :: real) powr (52 - of_nat n + 1) = 2 ^ 53 / 2 ^ n"
    by (simp add: powr_diff powr_add powr_realpow)
  have "2 ^ 52 / 2 ^ n \<le> \<bar>x\<bar>"
    using lo by (simp add: pos_divide_le_eq)
  hence "2 powr (of_int (52 - int n)) \<le> \<bar>x\<bar>"
    using p by simp
  moreover have "\<bar>x\<bar> < 2 ^ 53 / 2 ^ n"
    using hi by (simp add: pos_less_divide_eq)
  hence "\<bar>x\<bar> < 2 powr (of_int (52 - int n) + 1)"
    using p1 by simp
  ultimately have b: "binade x = 52 - int n" by (rule binade_eqI)
  have q: "(2 :: real) powr (of_nat n) = 2 ^ n" by (simp add: powr_realpow)
  have q': "(2 :: real) powr (- of_nat n) = 1 / 2 ^ n"
    by (simp add: powr_minus powr_realpow divide_inverse)
  show ?thesis using nz by (simp add: fl_def b q q')
qed

lemma fl_pos_bounds:
  assumes "0 < x"
  shows "2 powr (of_int (binade x)) \<le> fl x" and "fl x \<le> 2 powr (of_int (binade x) + 1)"
proof -
  define e where "e = binade x"
  define m where "m = x * 2 powr (52 - of_int e)"
  have nz: "x \<noteq> 0" using assms by simp
  have lo: "2 powr (of_int e) \<le> x" and hi: "x < 2 powr (of_int e + 1)"
    using binade_bounds[OF nz] assms by (simp_all add: e_def)
  have s: "0 < (2 :: real) powr (52 - of_int e)" by simp
  have "2 powr (of_int e) * 2 powr (52 - of_int e) \<le> m"
    unfolding m_def using lo s by (simp only: mult_le_cancel_right_pos)
  hence mlo: "of_int (2 ^ 52) \<le> m" by (simp add: powr_add[symmetric])
  have "m < 2 powr (of_int e + 1) * 2 powr (52 - of_int e)"
    unfolding m_def using hi s by (simp only: mult_less_cancel_right_pos)
  hence mhi: "m \<le> of_int (2 ^ 53)" by (simp add: powr_add[symmetric])
  have r: "2 ^ 52 \<le> round_half_even m \<and> round_half_even m \<le> 2 ^ 53"
    using round_half_even_bounds[OF mlo mhi] .
  have f: "fl x = of_int (round_half_even m) * 2 powr (of_int e - 52)"
    using nz by (simp add: fl_def e_def m_def)
  have t: "0 < (2 :: real) powr (of_int e - 52)" by simp
  have "(2 ^ 52 :: real) \<le> of_int (round_half_even m)"
    using r by (metis of_int_le_iff of_int_numeral of_int_power)
  hence "2 ^ 52 * 2 powr (of_int e - 52) \<le> fl x"
    unfolding f using t by (simp only: mult_le_cancel_right_pos)
  moreover have "(2 :: real) ^ 52 * 2 powr (of_int e - 52) = 2 powr (of_int e)"
    by (simp add: powr_diff)
  ultimately show "2 powr (of_int (binade x)) \<le> fl x" by (simp add: e_def)
  have "of_int (round_half_even m) \<le> (2 ^ 53 :: real)"
    using r by (metis of_int_le_iff of_int_numeral of_int_power)
  hence "fl x \<le> 2 ^ 53 * 2 powr (of_int e - 52)"
    unfolding f using t by (simp only: mult_le_cancel_right_pos)
  moreover have "(2 :: real) ^ 53 * 2 powr (of_int e - 52) = 2 powr (of_int e + 1)"
    by (simp add: powr_diff powr_add)
  ultimately show "fl x \<le> 2 powr (of_int (binade x) + 1)" by (simp add: e_def)
qed

lemma fl_nonneg: "0 \<le> x \<Longrightarrow> 0 \<le> fl x"
proof (cases "x = 0")
  case True thus ?thesis by simp
next
  case False
  assume "0 \<le> x"
  hence p: "0 < x" using False by simp
  have "0 < (2 :: real) powr (of_int (binade x))" by simp
  thus ?thesis using fl_pos_bounds(1)[OF p] by linarith
qed

text \<open>Rounding is monotone on the non-negative numbers.\<close>

lemma fl_mono:
  assumes "0 \<le> x" and "x \<le> y"
  shows "fl x \<le> fl y"
proof (cases "x = 0")
  case True
  thus ?thesis using fl_nonneg[of y] assms by simp
next
  case False
  hence px: "0 < x" using assms by simp
  hence py: "0 < y" using assms by simp
  have le: "binade x \<le> binade y" using binade_mono[OF px assms(2)] .
  show ?thesis
  proof (cases "binade x = binade y")
    case True
    have s: "0 < (2 :: real) powr (52 - of_int (binade y))" by simp
    have "x * 2 powr (52 - of_int (binade y)) \<le> y * 2 powr (52 - of_int (binade y))"
      using assms(2) s by (simp only: mult_le_cancel_right_pos)
    hence "round_half_even (x * 2 powr (52 - of_int (binade y)))
             \<le> round_half_even (y * 2 powr (52 - of_int (binade y)))"
      by (rule round_half_even_mono)
    hence "(of_int (round_half_even (x * 2 powr (52 - of_int (binade y)))) :: real)
             \<le> of_int (round_half_even (y * 2 powr (52 - of_int (binade y))))"
      by simp
    thus ?thesis using px py True by (simp add: fl_def)
  next
    case False
    hence "binade x + 1 \<le> binade y" using le by simp
    hence "(of_int (binade x) + 1 :: real) \<le> of_int (binade y)" by linarith
    hence "(2 :: real) powr (of_int (binade x) + 1) \<le> 2 powr (of_int (binade y))"
      by (simp add: powr_mono)
    thus ?thesis using fl_pos_bounds(2)[OF px] fl_pos_bounds(1)[OF py] by linarith
  qed
qed

text \<open>The natural numbers below \<open>2\<^sup>5\<^sup>3\<close> are doubles.\<close>

lemma fl_of_nat:
  assumes "n < 2 ^ 53"
  shows "fl (of_nat n) = of_nat n"
proof (cases "n = 0")
  case True thus ?thesis by simp
next
  case False
  define x :: real where "x = of_nat n"
  define e where "e = binade x"
  have px: "0 < x" using False by (simp add: x_def)
  have nz: "x \<noteq> 0" using px by simp
  have lo: "2 powr (of_int e) \<le> x" and hi: "x < 2 powr (of_int e + 1)"
    using binade_bounds[OF nz] px by (simp_all add: e_def)
  have xlt: "x < 2 ^ 53"
    using assms unfolding x_def by (metis of_nat_less_iff of_nat_numeral of_nat_power)
  have e52: "e \<le> 52"
  proof (rule ccontr)
    assume "\<not> e \<le> 52"
    hence "(53 :: real) \<le> of_int e" by linarith
    hence "(2 :: real) powr 53 \<le> 2 powr (of_int e)" by (rule powr_mono) simp
    hence "(2 :: real) ^ 53 \<le> 2 powr (of_int e)" by simp
    thus False using lo xlt by linarith
  qed
  define k where "k = nat (52 - e)"
  have kk: "(52 :: real) - of_int e = of_nat k" using e52 by (simp add: k_def)
  have sc: "(2 :: real) powr (52 - of_int e) = 2 ^ k" by (simp add: kk powr_realpow)
  have sc': "(2 :: real) powr (of_int e - 52) = 1 / 2 ^ k"
  proof -
    have "(of_int e :: real) - 52 = - of_nat k" using kk by simp
    thus ?thesis by (simp add: powr_minus powr_realpow divide_inverse)
  qed
  have "x * 2 ^ k = of_int (int n * 2 ^ k)" by (simp add: x_def)
  hence "round_half_even (x * 2 ^ k) = int n * 2 ^ k" by (simp only: round_half_even_of_int)
  hence "fl x = of_int (int n * 2 ^ k) * (1 / 2 ^ k)"
    using nz by (simp add: fl_def e_def[symmetric] sc sc')
  thus ?thesis by (simp add: x_def)
qed

lemma fl_one [simp]: "fl 1 = 1"
  using fl_of_nat[of 1] by simp

lemma fl_numeral: "numeral n < (2 :: nat) ^ 53 \<Longrightarrow> fl (numeral n) = numeral n"
  using fl_of_nat[of "numeral n"] by simp

lemma fl_hundred: "fl 100 = 100"
  by (simp add: fl_numeral)

lemma fl_unit_interval: "0 \<le> x \<Longrightarrow> x \<le> 1 \<Longrightarrow> 0 \<le> fl x \<and> fl x \<le> 1"
  using fl_nonneg[of x] fl_mono[of x 1] by simp

lemma round2_bounds:
  assumes "0 \<le> x" "x \<le> 100"
  shows "0 \<le> round2 x \<and> round2 x \<le> 100"
proof -
  have "of_int 0 \<le> x * 100" "x * 100 \<le> of_int 10000" using assms by simp_all
  from round_half_even_bounds[OF this]
  have "0 \<le> round_half_even (x * 100)" "round_half_even (x * 100) \<le> 10000" by simp_all
  then have "(0::real) \<le> of_int (round_half_even (x * 100))"
    "of_int (round_half_even (x * 100)) \<le> (10000::real)"
    by simp_all
  then have "0 \<le> of_int (round_half_even (x * 100)) / (100 :: real)"
    "of_int (round_half_even (x * 100)) / (100 :: real) \<le> 100" by simp_all
  then show ?thesis
    using fl_nonneg[of "of_int (round_half_even (x * 100)) / 100"]
      fl_mono[of "of_int (round_half_even (x * 100)) / 100" 100]
    by (simp add: round2_def fl_hundred)
qed

lemma round2_zero [simp]: "round2 0 = 0"
  by (simp add: round2_def round_half_even_def)

text \<open>The doubles that the examples meet.\<close>

lemma fl_values:
  "fl (- 5) = - 5"
  "fl (19 / 20) = 4278419646001971 / 4503599627370496"
  "fl (38505776814017739 / 4503599627370496) = 4813222101752217 / 562949953421312"
  "fl (309622474381721 / 562949953421312) = 309622474381721 / 562949953421312"
  "fl (1548112371908605 / 281474976710656) = 1548112371908605 / 281474976710656"
  "fl (26880860275867645 / 281474976710656) = 6720215068966911 / 70368744177664"
  "fl (99 / 100) = 4458563631096791 / 4503599627370496"
  "fl (40127072679871119 / 4503599627370496) = 2507942042491945 / 281474976710656"
  "fl (256142228806697 / 281474976710656) = 256142228806697 / 281474976710656"
  "fl (1280711144033485 / 140737488355328) = 1280711144033485 / 140737488355328"
  "fl (13947085096013005 / 140737488355328) = 3486771274003251 / 35184372088832"
  "fl (191 / 2) = 191 / 2"
  "fl (991 / 10) = 3486771274003251 / 35184372088832"
  "fl (4278419646001971 / 2251799813685248) = 4278419646001971 / 2251799813685248"
  "fl (2026619832316723 / 2251799813685248) = 2026619832316723 / 2251799813685248"
  "fl (4458563631096791 / 2251799813685248) = 4458563631096791 / 2251799813685248"
  "fl (2206763817411543 / 2251799813685248) = 2206763817411543 / 2251799813685248"
  "fl (10133099161583615 / 1125899906842624) = 9"
  "fl (1 / 3) = 6004799503160661 / 18014398509481984"
  "fl (150119987579016525 / 4503599627370496) = 2345624805922133 / 70368744177664"
  "fl (3333 / 100) = 2345390243441541 / 70368744177664"
  "fl (1 / 20) = 3602879701896397 / 72057594037927936"
  "fl (90071992547409925 / 18014398509481984) = 5"
  "fl (23 / 160) = 2589569785738035 / 18014398509481984"
  "fl (64739244643450875 / 4503599627370496) = 8092405580431359 / 562949953421312"
  "fl (1437 / 100) = 8089590830664253 / 562949953421312"
  "fl (1 / 2) = 1 / 2"
  "fl (3 / 5) = 5404319552844595 / 9007199254740992"
  "fl (719 / 50) = 8095220330198467 / 562949953421312"
  "fl (1 / 5) = 3602879701896397 / 18014398509481984"
  "fl (2 / 5) = 3602879701896397 / 9007199254740992"
  "fl (1 / 60) = 4803839602528529 / 288230376151711744"
  "fl (1 / 30) = 4803839602528529 / 144115188075855872"
  "fl (1 / 50) = 5764607523034235 / 288230376151711744"
  "fl (3 / 100) = 1080863910568919 / 36028797018963968"
  by (simp_all add: round_half_even_def
      fl_eval[of "- 5" 50]
      fl_eval[of "19 / 20" 53]
      fl_eval[of "38505776814017739 / 4503599627370496" 49]
      fl_eval[of "309622474381721 / 562949953421312" 53]
      fl_eval[of "1548112371908605 / 281474976710656" 50]
      fl_eval[of "26880860275867645 / 281474976710656" 46]
      fl_eval[of "99 / 100" 53]
      fl_eval[of "40127072679871119 / 4503599627370496" 49]
      fl_eval[of "256142228806697 / 281474976710656" 53]
      fl_eval[of "1280711144033485 / 140737488355328" 49]
      fl_eval[of "13947085096013005 / 140737488355328" 46]
      fl_eval[of "191 / 2" 46]
      fl_eval[of "991 / 10" 46]
      fl_eval[of "4278419646001971 / 2251799813685248" 52]
      fl_eval[of "2026619832316723 / 2251799813685248" 53]
      fl_eval[of "4458563631096791 / 2251799813685248" 52]
      fl_eval[of "2206763817411543 / 2251799813685248" 53]
      fl_eval[of "10133099161583615 / 1125899906842624" 49]
      fl_eval[of "1 / 3" 54]
      fl_eval[of "150119987579016525 / 4503599627370496" 47]
      fl_eval[of "3333 / 100" 47]
      fl_eval[of "1 / 20" 57]
      fl_eval[of "90071992547409925 / 18014398509481984" 50]
      fl_eval[of "23 / 160" 55]
      fl_eval[of "64739244643450875 / 4503599627370496" 49]
      fl_eval[of "1437 / 100" 49]
      fl_eval[of "1 / 2" 53]
      fl_eval[of "3 / 5" 53]
      fl_eval[of "719 / 50" 49]
      fl_eval[of "1 / 5" 55]
      fl_eval[of "2 / 5" 54]
      fl_eval[of "1 / 60" 58]
      fl_eval[of "1 / 30" 57]
      fl_eval[of "1 / 50" 58]
      fl_eval[of "3 / 100" 58])

section \<open>Properties of the percentile routine\<close>

lemma py_int_nonneg: "0 \<le> x \<Longrightarrow> py_int x = \<lfloor>x\<rfloor>"
  by (simp add: py_int_def)

lemma py_get_in_range: "0 \<le> i \<Longrightarrow> i < int (length xs) \<Longrightarrow> py_get xs i = Inr (xs ! nat i)"
  by (simp add: py_get_def)

lemma py_get_last: "xs \<noteq> [] \<Longrightarrow> py_get xs (- 1) = Inr (xs ! (length xs - 1))"
  by (cases xs) (auto simp: py_get_def nat_diff_distrib)

text \<open>The rank \<open>k\<close> is not negative, so no subscript of the routine is out of range.\<close>

lemma calculate_percentile_unfold:
  assumes ne: "values \<noteq> []" and p0: "0 \<le> p"
  defines "L \<equiv> sort values"
  defines "k \<equiv> fl (fl (of_nat (length values - 1)) * fl (p / 100))"
  shows "0 \<le> k"
    and "calculate_percentile values p =
          (if \<lfloor>k\<rfloor> + 1 \<ge> int (length values) then Inr (L ! (length values - 1))
           else Inr (fl (L ! nat \<lfloor>k\<rfloor>
                          + fl (fl (k - fl (of_int \<lfloor>k\<rfloor>)) * fl (L ! nat (\<lfloor>k\<rfloor> + 1) - L ! nat \<lfloor>k\<rfloor>)))))"
proof -
  have "0 \<le> fl (of_nat (length values - 1))" by (rule fl_nonneg) simp
  moreover have "0 \<le> fl (p / 100)" using p0 by (intro fl_nonneg) simp
  ultimately have "0 \<le> fl (of_nat (length values - 1)) * fl (p / 100)" by simp
  then show k0: "0 \<le> k" unfolding k_def by (rule fl_nonneg)
  have fl0: "0 \<le> \<lfloor>k\<rfloor>" using k0 by simp
  have len: "length L = length values" by (simp add: L_def)
  have Lne: "L \<noteq> []" using ne len by (cases L) simp_all
  have cp: "calculate_percentile values p =
     (if \<lfloor>k\<rfloor> + 1 \<ge> int (length values) then py_get L (- 1)
      else (case py_get L \<lfloor>k\<rfloor> of Inl err \<Rightarrow> Inl err
            | Inr lo \<Rightarrow> (case py_get L (\<lfloor>k\<rfloor> + 1) of Inl err \<Rightarrow> Inl err
                 | Inr hi \<Rightarrow> Inr (fl (lo + fl (fl (k - fl (of_int \<lfloor>k\<rfloor>)) * fl (hi - lo)))))))"
    using ne k0
    by (simp add: calculate_percentile_def Let_def L_def k_def py_int_nonneg cong: sum.case_cong)
  show "calculate_percentile values p =
          (if \<lfloor>k\<rfloor> + 1 \<ge> int (length values) then Inr (L ! (length values - 1))
           else Inr (fl (L ! nat \<lfloor>k\<rfloor>
                          + fl (fl (k - fl (of_int \<lfloor>k\<rfloor>)) * fl (L ! nat (\<lfloor>k\<rfloor> + 1) - L ! nat \<lfloor>k\<rfloor>)))))"
  proof (cases "\<lfloor>k\<rfloor> + 1 \<ge> int (length values)")
    case True
    then show ?thesis using cp py_get_last[OF Lne] len by simp
  next
    case False
    then have lt: "\<lfloor>k\<rfloor> + 1 < int (length L)" using len by simp
    have g1: "py_get L \<lfloor>k\<rfloor> = Inr (L ! nat \<lfloor>k\<rfloor>)"
      using fl0 lt by (intro py_get_in_range) simp_all
    have g2: "py_get L (\<lfloor>k\<rfloor> + 1) = Inr (L ! nat (\<lfloor>k\<rfloor> + 1))"
      using fl0 lt by (intro py_get_in_range) simp_all
    show ?thesis using cp False g1 g2 by simp
  qed
qed

lemma calculate_percentile_ok:
  assumes "0 \<le> p"
  shows "\<exists>v. calculate_percentile xs p = Inr v"
proof (cases "xs = []")
  case True
  then show ?thesis by (simp add: calculate_percentile_def)
next
  case False
  show ?thesis unfolding calculate_percentile_unfold(2)[OF False assms] by simp
qed


section \<open>Properties of a sub-window\<close>

lemma window_add_event_accepted:
  assumes "window_start w \<le> timestamp e" "timestamp e < window_end w"
  shows "window_add_event w e =
    (True, w\<lparr>events := events w @ [e],
             request_count := request_count w + 1,
             error_count := (if is_error e then error_count w + 1 else error_count w),
             total_response_time := (if response_time_ms e \<noteq> 0 then total_response_time w + response_time_ms e else total_response_time w),
             response_times := (if response_time_ms e \<noteq> 0 then response_times w @ [response_time_ms e] else response_times w),
             service_stats := (if service_name e \<noteq> [] then AList.update (service_name e) (stat_add (dd_get (service_stats w) (service_name e)) e) (service_stats w) else service_stats w),
             endpoint_stats := (if api_endpoint e \<noteq> [] then AList.update (endpoint_key e) (stat_add (dd_get (endpoint_stats w) (endpoint_key e)) e) (endpoint_stats w) else endpoint_stats w)\<rparr>)"
  using assms by (simp add: window_add_event_def Let_def)







section \<open>Properties of the aggregator\<close>

lemma add_event_ignored: "event_type e \<noteq> API_RESPONSE \<Longrightarrow> add_event clk s e = s"
  by (simp add: add_event_def)

lemma add_event_failed:
  "get_window_start_time clk s (timestamp e) = Inl err \<Longrightarrow> add_event clk s e = s"
  by (simp add: add_event_def ensure_current_window_def)

lemma add_event_zero_sub: "sub_window_seconds s = 0 \<Longrightarrow> add_event clk s e = s"
  by (simp add: add_event_def ensure_current_window_def get_window_start_time_def
      split: sum.splits)

text \<open>The three ways an API response event meets the current sub-window.\<close>

lemma add_event_same_bucket:
  assumes "event_type e = API_RESPONSE"
    and "get_window_start_time clk s (timestamp e) = Inr start"
    and "current_window s = Some cw" and "window_start cw = start"
  shows "add_event clk s e =
     (if fst (window_add_event cw e)
      then s\<lparr>current_window := Some (snd (window_add_event cw e)),
             total_events_processed := total_events_processed s + 1\<rparr>
      else s\<lparr>current_window := Some (snd (window_add_event cw e))\<rparr>)"
  using assms
  by (cases "window_add_event cw e")
     (auto simp: add_event_def ensure_current_window_def)

lemma add_event_first_bucket:
  assumes "event_type e = API_RESPONSE"
    and "get_window_start_time clk s (timestamp e) = Inr start"
    and "current_window s = None"
  shows "add_event clk s e =
     (let nw = new_window start (sub_window_seconds s)
      in if fst (window_add_event nw e)
         then s\<lparr>current_window := Some (snd (window_add_event nw e)),
                last_window_start := Some start,
                total_events_processed := total_events_processed s + 1\<rparr>
         else s\<lparr>current_window := Some (snd (window_add_event nw e)),
                last_window_start := Some start\<rparr>)"
  using assms
  by (cases "window_add_event (new_window start (sub_window_seconds s)) e")
     (auto simp: add_event_def ensure_current_window_def open_window_def Let_def)

lemma add_event_other_bucket:
  assumes "event_type e = API_RESPONSE"
    and "get_window_start_time clk s (timestamp e) = Inr start"
    and "current_window s = Some cw" and "window_start cw \<noteq> start"
  shows "add_event clk s e =
     (let nw = new_window start (sub_window_seconds s);
          sealed = deque_append (nat (num_sub_windows s)) (windows s) cw
      in if fst (window_add_event nw e)
         then s\<lparr>windows := sealed,
                current_window := Some (snd (window_add_event nw e)),
                last_window_start := Some start,
                total_events_processed := total_events_processed s + 1\<rparr>
         else s\<lparr>windows := sealed,
                current_window := Some (snd (window_add_event nw e)),
                last_window_start := Some start\<rparr>)"
  using assms
  by (cases "window_add_event (new_window start (sub_window_seconds s)) e")
     (auto simp: add_event_def ensure_current_window_def open_window_def Let_def)

lemma window_add_event_start [simp]: "window_start (snd (window_add_event w e)) = window_start w"
  by (simp add: window_add_event_def Let_def)

lemma window_add_event_end [simp]: "window_end (snd (window_add_event w e)) = window_end w"
  by (simp add: window_add_event_def Let_def)

lemma window_add_event_duration [simp]:
  "duration_seconds (snd (window_add_event w e)) = duration_seconds w"
  by (simp add: window_add_event_def Let_def)

lemma window_add_event_counts:
  "error_count w \<le> request_count w \<Longrightarrow>
   error_count (snd (window_add_event w e)) \<le> request_count (snd (window_add_event w e))"
  by (simp add: window_add_event_def Let_def)

lemma set_deque_append: "set (deque_append n xs x) \<subseteq> insert x (set xs)"
  by (cases xs) (auto simp: deque_append_def)

lemma set_all_windows_add_event:
  assumes "w \<in> set (all_windows (add_event clk s e))"
  shows "w \<in> set (all_windows s)
       \<or> (\<exists>cw. current_window s = Some cw \<and> w = snd (window_add_event cw e))
       \<or> (\<exists>start. w = snd (window_add_event (new_window start (sub_window_seconds s)) e))"
proof (cases "event_type e = API_RESPONSE")
  case False
  then show ?thesis using assms by (simp add: add_event_ignored)
next
  case resp: True
  show ?thesis
  proof (cases "get_window_start_time clk s (timestamp e)")
    case (Inl err)
    then show ?thesis using assms by (simp add: add_event_failed)
  next
    case (Inr start)
    note gs = Inr
    show ?thesis
    proof (cases "current_window s")
      case None
      show ?thesis
        using assms add_event_first_bucket[OF resp gs None]
        by (auto simp: all_windows_def Let_def split: if_splits)
    next
      case (Some cw)
      show ?thesis
      proof (cases "window_start cw = start")
        case True
        show ?thesis
          using assms add_event_same_bucket[OF resp gs Some True] Some
          by (auto simp: all_windows_def split: if_splits)
      next
        case False
        show ?thesis
          using assms add_event_other_bucket[OF resp gs Some False] Some
            set_deque_append[of "nat (num_sub_windows s)" "windows s" cw]
          by (auto simp: all_windows_def Let_def split: if_splits)
      qed
    qed
  qed
qed

lemma counts_ok_add_event: "counts_ok s \<Longrightarrow> counts_ok (add_event clk s e)"
  unfolding counts_ok_def
proof
  fix w assume inv: "\<forall>w\<in>set (all_windows s). error_count w \<le> request_count w"
    and w: "w \<in> set (all_windows (add_event clk s e))"
  from set_all_windows_add_event[OF w] show "error_count w \<le> request_count w"
  proof (elim disjE exE conjE)
    assume "w \<in> set (all_windows s)" then show ?thesis using inv by blast
  next
    fix cw assume "current_window s = Some cw" "w = snd (window_add_event cw e)"
    moreover then have "cw \<in> set (all_windows s)" by (simp add: all_windows_def)
    ultimately show ?thesis using inv window_add_event_counts by blast
  next
    fix start assume "w = snd (window_add_event (new_window start (sub_window_seconds s)) e)"
    then show ?thesis using window_add_event_counts[of "new_window start (sub_window_seconds s)" e]
      by (simp add: new_window_def)
  qed
qed

lemma counts_ok_foldl: "counts_ok s \<Longrightarrow> counts_ok (foldl (add_event clk) s es)"
  by (induction es arbitrary: s) (simp_all add: counts_ok_add_event)

lemma counts_ok_init: "init_aggregator now W S = Inr s0 \<Longrightarrow> counts_ok s0"
  by (auto simp: init_aggregator_def counts_ok_def all_windows_def split: if_splits)

lemma sum_list_counts:
  "\<forall>w \<in> set ws. error_count w \<le> request_count w \<Longrightarrow>
   sum_list (map error_count ws) \<le> sum_list (map request_count ws)"
  by (induction ws) auto

lemma scope_metrics_fields:
  assumes "scope_metrics W r e rts = Inr m"
  shows "total_requests m = r \<and> total_errors m = e
       \<and> error_rate m = round2 (if r > 0 then fl (fl (of_nat e / of_nat r) * 100) else 0)
       \<and> avg_response_time m = round2 (if rts \<noteq> [] then mean rts else 0)
       \<and> qps m = round2 (fl (of_nat r / of_int W))
       \<and> (calculate_percentile rts 95 = Inr p95 \<longrightarrow> p95_response_time m = round2 p95)
       \<and> (calculate_percentile rts 99 = Inr p99 \<longrightarrow> p99_response_time m = round2 p99)"
  using assms
  by (auto simp: scope_metrics_def py_truediv_def Let_def split: sum.splits if_splits)


lemma scope_metrics_ok:
  assumes "W \<noteq> 0"
  shows "\<exists>m. scope_metrics W r e rts = Inr m"
proof -
  obtain p95 where a: "calculate_percentile rts 95 = Inr p95"
    using calculate_percentile_ok[of 95 rts] by auto
  obtain p99 where b: "calculate_percentile rts 99 = Inr p99"
    using calculate_percentile_ok[of 99 rts] by auto
  show ?thesis using assms a b
    by (simp add: scope_metrics_def py_truediv_def Let_def)
qed

lemma scope_results_ok: "W \<noteq> 0 \<Longrightarrow> \<exists>ms. scope_results W d = Inr ms"
proof (induction d)
  case Nil
  then show ?case by simp
next
  case (Cons a d)
  obtain name ag where [simp]: "a = (name, ag)" by (cases a)
  obtain m where "scope_metrics W (agg_request_count ag) (agg_error_count ag) (agg_response_times ag) = Inr m"
    using scope_metrics_ok[OF Cons.prems] by blast
  moreover obtain ms where "scope_results W d = Inr ms" using Cons by blast
  ultimately show ?case by simp
qed

lemma get_summary_ok: "duration_seconds w \<noteq> 0 \<Longrightarrow> \<exists>x. get_summary w = Inr x"
proof -
  assume d: "duration_seconds w \<noteq> 0"
  obtain p95 where a: "calculate_percentile (response_times w) 95 = Inr p95"
    using calculate_percentile_ok[of 95] by auto
  obtain p99 where b: "calculate_percentile (response_times w) 99 = Inr p99"
    using calculate_percentile_ok[of 99] by auto
  show ?thesis using d a b
    by (simp add: get_summary_def get_qps_def py_truediv_def get_percentile_response_time_def)
qed

lemma summaries_ok: "\<forall>w \<in> set ws. duration_seconds w \<noteq> 0 \<Longrightarrow> \<exists>xs. summaries ws = Inr xs"
proof (induction ws)
  case Nil
  then show ?case by simp
next
  case (Cons w ws)
  obtain x where "get_summary w = Inr x" using get_summary_ok[of w] Cons.prems by auto
  moreover obtain xs where "summaries ws = Inr xs" using Cons by auto
  ultimately show ?case by simp
qed

text \<open>What a snapshot that was produced says about the overall scope.\<close>

lemma get_current_metrics_overall:
  assumes "get_current_metrics now s = Inr snap"
  shows "total_requests (overall snap) = sum_list (map request_count (all_windows s))
       \<and> total_errors (overall snap) = sum_list (map error_count (all_windows s))
       \<and> error_rate (overall snap) =
           round2 (if sum_list (map request_count (all_windows s)) > 0
                   then fl (fl (of_nat (sum_list (map error_count (all_windows s)))
                                / of_nat (sum_list (map request_count (all_windows s)))) * 100)
                   else 0)
       \<and> active_windows snap = length (all_windows s)
       \<and> snap_timestamp snap = now"
proof (cases "all_windows s = []")
  case True
  then show ?thesis using assms
    by (auto simp: get_current_metrics_def empty_metrics_def zero_metrics_def)
next
  case False
  then obtain ov where ov: "scope_metrics (window_size_seconds s)
      (sum_list (map request_count (all_windows s))) (sum_list (map error_count (all_windows s)))
      (concat (map response_times (all_windows s))) = Inr ov" and "overall snap = ov"
      and "active_windows snap = length (all_windows s)" and "snap_timestamp snap = now"
    using assms by (auto simp: get_current_metrics_def Let_def split: sum.splits)
  then show ?thesis using scope_metrics_fields[OF ov] by simp
qed

lemma get_current_metrics_latency:
  assumes "get_current_metrics now s = Inr snap"
  shows "avg_response_time (overall snap)
           = round2 (if concat (map response_times (all_windows s)) \<noteq> []
                     then mean (concat (map response_times (all_windows s))) else 0)
       \<and> (calculate_percentile (concat (map response_times (all_windows s))) 95 = Inr p95 \<longrightarrow>
            p95_response_time (overall snap) = round2 p95)
       \<and> (calculate_percentile (concat (map response_times (all_windows s))) 99 = Inr p99 \<longrightarrow>
            p99_response_time (overall snap) = round2 p99)"
proof (cases "all_windows s = []")
  case True
  then show ?thesis using assms
    by (auto simp: get_current_metrics_def empty_metrics_def zero_metrics_def
        calculate_percentile_def)
next
  case False
  then obtain ov where ov: "scope_metrics (window_size_seconds s)
      (sum_list (map request_count (all_windows s))) (sum_list (map error_count (all_windows s)))
      (concat (map response_times (all_windows s))) = Inr ov" and "overall snap = ov"
    using assms by (auto simp: get_current_metrics_def Let_def split: sum.splits)
  then show ?thesis using scope_metrics_fields[OF ov, of p95 p99] by simp
qed

lemma get_current_metrics_ok:
  assumes "window_size_seconds s \<noteq> 0" "\<forall>w \<in> set (all_windows s). duration_seconds w \<noteq> 0"
  shows "\<exists>snap. get_current_metrics now s = Inr snap"
proof (cases "all_windows s = []")
  case True
  then show ?thesis by (simp add: get_current_metrics_def)
next
  case False
  obtain ov where 1: "scope_metrics (window_size_seconds s)
      (sum_list (map request_count (all_windows s))) (sum_list (map error_count (all_windows s)))
      (concat (map response_times (all_windows s))) = Inr ov"
    using scope_metrics_ok[OF assms(1)] by blast
  obtain sm where 2: "aggregate_service_metrics s (all_windows s) = Inr sm"
    using scope_results_ok[OF assms(1)] by (auto simp: aggregate_service_metrics_def aggregate_stats_def)
  obtain em where 3: "aggregate_endpoint_metrics s (all_windows s) = Inr em"
    using scope_results_ok[OF assms(1)] by (auto simp: aggregate_endpoint_metrics_def aggregate_stats_def)
  have "\<forall>w \<in> set (drop (length (all_windows s) - 5) (all_windows s)). duration_seconds w \<noteq> 0"
    using assms(2) by (meson in_set_dropD)
  then obtain ds where 4: "summaries (drop (length (all_windows s) - 5) (all_windows s)) = Inr ds"
    using summaries_ok by blast
  show ?thesis using False 1 2 3 4 by (simp add: get_current_metrics_def Let_def)
qed

lemma init_fresh_aggregator: "init_aggregator 0 60 5 = Inr fresh_aggregator"
  by (simp add: init_aggregator_def fresh_aggregator_def)

lemma add_event_shape:
  obtains (unchanged) "add_event clk s e = s"
  | (same) cw n where "event_type e = API_RESPONSE" "current_window s = Some cw"
      "get_window_start_time clk s (timestamp e) = Inr (window_start cw)"
      "add_event clk s e = s\<lparr>current_window := Some (snd (window_add_event cw e)),
                           total_events_processed := n\<rparr>"
  | (first) start n where "event_type e = API_RESPONSE" "current_window s = None"
      "get_window_start_time clk s (timestamp e) = Inr start"
      "add_event clk s e =
         s\<lparr>current_window := Some (snd (window_add_event (new_window start (sub_window_seconds s)) e)),
           last_window_start := Some start, total_events_processed := n\<rparr>"
  | (other) cw start n where "event_type e = API_RESPONSE" "current_window s = Some cw"
      "window_start cw \<noteq> start"
      "get_window_start_time clk s (timestamp e) = Inr start"
      "add_event clk s e =
         s\<lparr>windows := deque_append (nat (num_sub_windows s)) (windows s) cw,
           current_window := Some (snd (window_add_event (new_window start (sub_window_seconds s)) e)),
           last_window_start := Some start, total_events_processed := n\<rparr>"
proof (cases "event_type e = API_RESPONSE")
  case False
  then show ?thesis using unchanged by (simp add: add_event_ignored)
next
  case resp: True
  show ?thesis
  proof (cases "get_window_start_time clk s (timestamp e)")
    case (Inl err)
    then show ?thesis using unchanged by (simp add: add_event_failed)
  next
    case (Inr start)
    note gs = Inr
    show ?thesis
    proof (cases "current_window s")
      case None
      have "add_event clk s e =
           s\<lparr>current_window := Some (snd (window_add_event (new_window start (sub_window_seconds s)) e)),
             last_window_start := Some start,
             total_events_processed :=
               (if fst (window_add_event (new_window start (sub_window_seconds s)) e)
                then total_events_processed s + 1 else total_events_processed s)\<rparr>"
        using add_event_first_bucket[OF resp gs None] by (simp add: Let_def)
      then show ?thesis using first[OF resp None gs] by blast
    next
      case (Some cw)
      show ?thesis
      proof (cases "window_start cw = start")
        case True
        have "add_event clk s e = s\<lparr>current_window := Some (snd (window_add_event cw e)),
                 total_events_processed := (if fst (window_add_event cw e)
                    then total_events_processed s + 1 else total_events_processed s)\<rparr>"
          using add_event_same_bucket[OF resp gs Some True] by simp
        then show ?thesis using same[OF resp Some] gs True by blast
      next
        case False
        have "add_event clk s e =
           s\<lparr>windows := deque_append (nat (num_sub_windows s)) (windows s) cw,
             current_window := Some (snd (window_add_event (new_window start (sub_window_seconds s)) e)),
             last_window_start := Some start,
             total_events_processed :=
               (if fst (window_add_event (new_window start (sub_window_seconds s)) e)
                then total_events_processed s + 1 else total_events_processed s)\<rparr>"
          using add_event_other_bucket[OF resp gs Some False] by (simp add: Let_def)
        then show ?thesis using other[OF resp Some False gs] by blast
      qed
    qed
  qed
qed

lemma add_event_config [simp]:
  "sub_window_seconds (add_event clk s e) = sub_window_seconds s"
  "window_size_seconds (add_event clk s e) = window_size_seconds s"
  "num_sub_windows (add_event clk s e) = num_sub_windows s"
  by (cases rule: add_event_shape[of clk s e]; simp)+

lemma length_deque_append: "length xs \<le> n \<Longrightarrow> length (deque_append n xs x) \<le> n"
  by (cases xs) (auto simp: deque_append_def)

lemma windows_bounded_add_event:
  "length (windows s) \<le> nat (num_sub_windows s) \<Longrightarrow>
   length (windows (add_event clk s e)) \<le> nat (num_sub_windows s)"
  by (cases rule: add_event_shape[of clk s e]) (simp_all add: length_deque_append)


text \<open>With the conversions of a UTC process the bucket of a time is found by arithmetic.\<close>

lemma get_window_start_time_utc:
  "get_window_start_time utc_clock s t =
     (if sub_window_seconds s = 0 then Inl ZeroDivisionError
      else Inr (of_int ((py_int t div sub_window_seconds s) * sub_window_seconds s)))"
  by (simp add: get_window_start_time_def utc_clock_def)

lemma is_aligned_utc:
  "is_aligned utc_clock sub t \<longleftrightarrow> (t = of_int \<lfloor>t\<rfloor> \<and> \<lfloor>t\<rfloor> mod sub = 0)"
proof
  assume "is_aligned utc_clock sub t"
  then show "t = of_int \<lfloor>t\<rfloor> \<and> \<lfloor>t\<rfloor> mod sub = 0"
    by (auto simp: is_aligned_def utc_clock_def)
next
  assume a: "t = of_int \<lfloor>t\<rfloor> \<and> \<lfloor>t\<rfloor> mod sub = 0"
  then have "\<lfloor>t\<rfloor> mod sub = 0 \<and> from_posix utc_clock \<lfloor>t\<rfloor> = Inr t"
    by (simp add: utc_clock_def)
  then show "is_aligned utc_clock sub t" unfolding is_aligned_def by (rule exI)
qed






lemma bucket_zero:
  assumes "0 \<le> t" "t < 5"
  shows "py_int t div 5 * 5 = 0"
proof -
  have "0 \<le> \<lfloor>t\<rfloor>" using assms(1) by simp
  moreover have "\<lfloor>t\<rfloor> < 5" using assms(2) by (simp add: floor_less_iff)
  ultimately show ?thesis using assms(1) by (simp add: py_int_def)
qed

lemma first_bucket_run:
  assumes "es \<noteq> []"
    and "\<forall>e \<in> set es. event_type e = API_RESPONSE \<and> 0 \<le> timestamp e \<and> timestamp e < 5"
  shows "\<exists>w. foldl (add_event utc_clock) fresh_aggregator es
              = fresh_aggregator\<lparr>current_window := Some w, last_window_start := Some 0,
                                  total_events_processed := length es\<rparr>
            \<and> window_start w = 0 \<and> window_end w = 5 \<and> duration_seconds w = 5
            \<and> request_count w = length es
            \<and> error_count w = length (filter is_error es)
            \<and> response_times w = filter (\<lambda>x. x \<noteq> 0) (map response_time_ms es)"
  using assms
proof (induction es rule: rev_nonempty_induct)
  case (single e)
  then have e: "event_type e = API_RESPONSE" "0 \<le> timestamp e" "timestamp e < 5" by simp_all
  have gs: "get_window_start_time utc_clock fresh_aggregator (timestamp e) = Inr 0"
    using bucket_zero[OF e(2,3)] by (simp add: get_window_start_time_utc fresh_aggregator_def)
  have acc: "fst (window_add_event (new_window 0 5) e)"
    "request_count (snd (window_add_event (new_window 0 5) e)) = 1"
    "duration_seconds (snd (window_add_event (new_window 0 5) e)) = 5"
    "error_count (snd (window_add_event (new_window 0 5) e)) = length (filter is_error [e])"
    "response_times (snd (window_add_event (new_window 0 5) e))
       = filter (\<lambda>x. x \<noteq> 0) (map response_time_ms [e])"
    using e by (simp_all add: window_add_event_accepted new_window_def)
  have "add_event utc_clock fresh_aggregator e =
      fresh_aggregator\<lparr>current_window := Some (snd (window_add_event (new_window 0 5) e)),
                        last_window_start := Some 0, total_events_processed := 1\<rparr>"
    using add_event_first_bucket[OF e(1) gs] acc(1)
    by (simp add: fresh_aggregator_def Let_def)
  then show ?case using acc by (auto simp: new_window_def)
next
  case (snoc e es)
  then have e: "event_type e = API_RESPONSE" "0 \<le> timestamp e" "timestamp e < 5" by simp_all
  from snoc obtain w where w: "foldl (add_event utc_clock) fresh_aggregator es
              = fresh_aggregator\<lparr>current_window := Some w, last_window_start := Some 0,
                                  total_events_processed := length es\<rparr>"
      "window_start w = 0" "window_end w = 5" "duration_seconds w = 5" "request_count w = length es"
      "error_count w = length (filter is_error es)"
      "response_times w = filter (\<lambda>x. x \<noteq> 0) (map response_time_ms es)"
    by auto
  define s where "s = foldl (add_event utc_clock) fresh_aggregator es"
  have cur: "current_window s = Some w" using w(1) by (simp add: s_def)
  have gs: "get_window_start_time utc_clock s (timestamp e) = Inr 0"
    using bucket_zero[OF e(2,3)] w(1)
    by (simp add: get_window_start_time_utc fresh_aggregator_def s_def)
  have acc: "fst (window_add_event w e)"
    "request_count (snd (window_add_event w e)) = length es + 1"
    "duration_seconds (snd (window_add_event w e)) = 5"
    "error_count (snd (window_add_event w e)) = length (filter is_error (es @ [e]))"
    "response_times (snd (window_add_event w e))
       = filter (\<lambda>x. x \<noteq> 0) (map response_time_ms (es @ [e]))"
    using e w by (simp_all add: window_add_event_accepted)
  have "add_event utc_clock s e = s\<lparr>current_window := Some (snd (window_add_event w e)),
             total_events_processed := total_events_processed s + 1\<rparr>"
    using add_event_same_bucket[OF e(1) gs cur w(2)] acc(1) by simp
  then have "foldl (add_event utc_clock) fresh_aggregator (es @ [e])
       = fresh_aggregator\<lparr>current_window := Some (snd (window_add_event w e)),
                           last_window_start := Some 0,
                           total_events_processed := length (es @ [e])\<rparr>"
    using w(1) by (simp add: s_def)
  then show ?case using acc w by auto
qed

text \<open>The snapshot after a run of events of the first bucket.\<close>

lemma first_bucket_snapshot:
  assumes "es \<noteq> []"
    and "\<forall>e \<in> set es. event_type e = API_RESPONSE \<and> 0 \<le> timestamp e \<and> timestamp e < 5"
    and "calculate_percentile (filter (\<lambda>x. x \<noteq> 0) (map response_time_ms es)) 95 = Inr p95"
    and "calculate_percentile (filter (\<lambda>x. x \<noteq> 0) (map response_time_ms es)) 99 = Inr p99"
  shows "\<exists>snap. get_current_metrics now (foldl (add_event utc_clock) fresh_aggregator es) = Inr snap
            \<and> total_requests (overall snap) = length es
            \<and> total_errors (overall snap) = length (filter is_error es)
            \<and> error_rate (overall snap)
                = round2 (fl (fl (of_nat (length (filter is_error es)) / of_nat (length es)) * 100))
            \<and> p95_response_time (overall snap) = round2 p95
            \<and> p99_response_time (overall snap) = round2 p99"
proof -
  define s where "s = foldl (add_event utc_clock) fresh_aggregator es"
  from first_bucket_run[OF assms(1,2)] obtain w where w: "s
              = fresh_aggregator\<lparr>current_window := Some w, last_window_start := Some 0,
                                  total_events_processed := length es\<rparr>"
      "duration_seconds w = 5" "request_count w = length es"
      "error_count w = length (filter is_error es)"
      "response_times w = filter (\<lambda>x. x \<noteq> 0) (map response_time_ms es)"
    unfolding s_def by blast
  have aw: "all_windows s = [w]" using w(1) by (simp add: all_windows_def fresh_aggregator_def)
  have "window_size_seconds s \<noteq> 0" using w(1) by (simp add: fresh_aggregator_def)
  moreover have "\<forall>x \<in> set (all_windows s). duration_seconds x \<noteq> 0" using aw w(2) by simp
  ultimately obtain snap where snap: "get_current_metrics now s = Inr snap"
    using get_current_metrics_ok by blast
  have pos: "0 < length es" using assms(1) by simp
  from get_current_metrics_overall[OF snap]
  have "total_requests (overall snap) = length es"
    "total_errors (overall snap) = length (filter is_error es)"
    "error_rate (overall snap)
       = round2 (fl (fl (of_nat (length (filter is_error es)) / of_nat (length es)) * 100))"
    using aw w(3,4) pos by simp_all
  moreover from get_current_metrics_latency[OF snap, of p95 p99]
  have "p95_response_time (overall snap) = round2 p95" "p99_response_time (overall snap) = round2 p99"
    using aw w(5) assms(3,4) by simp_all
  ultimately have "\<exists>snap. get_current_metrics now s = Inr snap
            \<and> total_requests (overall snap) = length es
            \<and> total_errors (overall snap) = length (filter is_error es)
            \<and> error_rate (overall snap)
                = round2 (fl (fl (of_nat (length (filter is_error es)) / of_nat (length es)) * 100))
            \<and> p95_response_time (overall snap) = round2 p95
            \<and> p99_response_time (overall snap) = round2 p99"
    using snap by blast
  then show ?thesis unfolding s_def .
qed

text \<open>Events of the first bucket, then one event 65 seconds in: nothing is discarded.\<close>

lemma late_event_keeps_first_bucket:
  assumes "es \<noteq> []"
    and "\<forall>e \<in> set es. event_type e = API_RESPONSE \<and> 0 \<le> timestamp e \<and> timestamp e < 5"
    and "event_type e' = API_RESPONSE" and "timestamp e' = 65"
  shows "\<exists>snap. get_current_metrics now (add_event utc_clock (foldl (add_event utc_clock) fresh_aggregator es) e') = Inr snap
            \<and> total_requests (overall snap) = length es + 1
            \<and> active_windows snap = 2
            \<and> map window_start (all_windows (add_event utc_clock (foldl (add_event utc_clock) fresh_aggregator es) e')) = [0, 65]"
proof -
  define s where "s = foldl (add_event utc_clock) fresh_aggregator es"
  from first_bucket_run[OF assms(1,2)] obtain w where w: "s
              = fresh_aggregator\<lparr>current_window := Some w, last_window_start := Some 0,
                                  total_events_processed := length es\<rparr>"
      "window_start w = 0" "window_end w = 5" "duration_seconds w = 5" "request_count w = length es"
    unfolding s_def by blast
  have cur: "current_window s = Some w" using w(1) by simp
  have gs: "get_window_start_time utc_clock s (timestamp e') = Inr 65"
    using w(1) assms(4) by (simp add: get_window_start_time_utc fresh_aggregator_def py_int_def)
  define nw where "nw = snd (window_add_event (new_window 65 5) e')"
  have acc: "fst (window_add_event (new_window 65 5) e')"
    "request_count nw = 1" "duration_seconds nw = 5" "window_start nw = 65"
    using assms(3,4) by (simp_all add: nw_def window_add_event_accepted new_window_def)
  have ne: "window_start w \<noteq> 65" using w(2) by simp
  have s': "add_event utc_clock s e' = s\<lparr>windows := [w], current_window := Some nw,
                last_window_start := Some 65,
                total_events_processed := total_events_processed s + 1\<rparr>"
    using add_event_other_bucket[OF assms(3) gs cur ne] acc(1) w(1)
    by (simp add: Let_def fresh_aggregator_def deque_append_def nw_def)
  have aw: "all_windows (add_event utc_clock s e') = [w, nw]"
    by (simp add: s' all_windows_def)
  have "window_size_seconds (add_event utc_clock s e') \<noteq> 0"
    using w(1) by (simp add: fresh_aggregator_def)
  moreover have "\<forall>x \<in> set (all_windows (add_event utc_clock s e')). duration_seconds x \<noteq> 0"
    using aw w(4) acc(3) by simp
  ultimately obtain snap where snap: "get_current_metrics now (add_event utc_clock s e') = Inr snap"
    using get_current_metrics_ok by blast
  from get_current_metrics_overall[OF snap]
  have "total_requests (overall snap) = length es + 1" "active_windows snap = 2"
    using aw w(5) acc(2) by simp_all
  moreover have "map window_start (all_windows (add_event utc_clock s e')) = [0, 65]"
    using aw w(2) acc(4) by simp
  ultimately have "\<exists>snap. get_current_metrics now (add_event utc_clock s e') = Inr snap
            \<and> total_requests (overall snap) = length es + 1
            \<and> active_windows snap = 2
            \<and> map window_start (all_windows (add_event utc_clock s e')) = [0, 65]"
    using snap by auto
  then show ?thesis unfolding s_def .
qed

subsection \<open>Evaluating the examples\<close>

lemmas agg_eval = add_event_def ensure_current_window_def
   get_window_start_time_def utc_clock_def py_int_def open_window_def new_window_def window_add_event_def
   deque_append_def is_error_def stat_add_def dd_get_def default_stat_def endpoint_key_def Let_def

lemmas snap_eval = get_current_metrics_def all_windows_def scope_metrics_def py_truediv_def
   calculate_percentile_def py_get_def mean_def round2_def round_half_even_def
   aggregate_service_metrics_def aggregate_endpoint_metrics_def aggregate_stats_def
   agg_add_def agg_get_def default_agg_def get_summary_def get_qps_def get_error_rate_def
   get_avg_response_time_def get_percentile_response_time_def fl_numeral fl_values

lemma three_requests_snapshot_eval:
  "get_current_metrics 10 three_requests_one_error = Inr three_requests_snapshot"
  by (simp add: three_requests_one_error_def three_requests_snapshot_def
      three_requests_metrics_def fresh_aggregator_def response_event_def agg_eval snap_eval)



lemma eviction_scenario_eval:
  "\<exists>snap. get_current_metrics now eviction_scenario = Inr snap
         \<and> total_requests (overall snap) = 51 \<and> active_windows snap = 2
         \<and> map window_start (all_windows eviction_scenario) = [0, 65]"
proof -
  have "replicate 50 (response_event 0 200 100) \<noteq> []" by simp
  moreover have "\<forall>e \<in> set (replicate 50 (response_event 0 200 100)).
      event_type e = API_RESPONSE \<and> 0 \<le> timestamp e \<and> timestamp e < 5"
    by (simp add: response_event_def)
  moreover have "event_type (response_event 65 200 200) = API_RESPONSE"
    "timestamp (response_event 65 200 200) = 65"
    by (simp_all add: response_event_def)
  ultimately show ?thesis
    using late_event_keeps_first_bucket[of "replicate 50 (response_event 0 200 100)"
        "response_event 65 200 200" now]
    by (simp add: eviction_scenario_def)
qed

lemma mixed_errors_eval:
  "\<exists>snap. get_current_metrics now mixed_errors_scenario = Inr snap
         \<and> total_requests (overall snap) = 100 \<and> total_errors (overall snap) = 5
         \<and> error_rate (overall snap) = 5"
proof -
  define es where
    "es = replicate 95 (response_event 1 200 100) @ replicate 5 (response_event 2 500 100)"
  have ne: "es \<noteq> []" by (simp add: es_def)
  have ok: "\<forall>e \<in> set es. event_type e = API_RESPONSE \<and> 0 \<le> timestamp e \<and> timestamp e < 5"
    by (auto simp: es_def response_event_def)
  have len: "length es = 100" "length (filter is_error es) = 5"
    by (simp_all add: es_def is_error_def response_event_def)
  have r: "round2 (fl (fl (5 / 100) * 100)) = 5"
    by (simp add: round2_def round_half_even_def fl_values fl_numeral)
  obtain p95 p99 where p:
    "calculate_percentile (filter (\<lambda>x. x \<noteq> 0) (map response_time_ms es)) 95 = Inr p95"
    "calculate_percentile (filter (\<lambda>x. x \<noteq> 0) (map response_time_ms es)) 99 = Inr p99"
    using calculate_percentile_ok[of 95] calculate_percentile_ok[of 99] by force
  from first_bucket_snapshot[OF ne ok p, of now] show ?thesis
    unfolding len mixed_errors_scenario_def es_def[symmetric] using r by auto
qed

lemma many_errors_eval:
  "\<exists>snap. get_current_metrics now many_errors_scenario = Inr snap
         \<and> total_requests (overall snap) = 160 \<and> total_errors (overall snap) = 23
         \<and> error_rate (overall snap) = fl (1437 / 100)"
proof -
  define es where
    "es = replicate 137 (response_event 1 200 100) @ replicate 23 (response_event 2 500 100)"
  have ne: "es \<noteq> []" by (simp add: es_def)
  have ok: "\<forall>e \<in> set es. event_type e = API_RESPONSE \<and> 0 \<le> timestamp e \<and> timestamp e < 5"
    by (auto simp: es_def response_event_def)
  have len: "length es = 160" "length (filter is_error es) = 23"
    by (simp_all add: es_def is_error_def response_event_def)
  have r: "round2 (fl (fl (23 / 160) * 100)) = fl (1437 / 100)"
    by (simp add: round2_def round_half_even_def fl_values)
  obtain p95 p99 where p:
    "calculate_percentile (filter (\<lambda>x. x \<noteq> 0) (map response_time_ms es)) 95 = Inr p95"
    "calculate_percentile (filter (\<lambda>x. x \<noteq> 0) (map response_time_ms es)) 99 = Inr p99"
    using calculate_percentile_ok[of 95] calculate_percentile_ok[of 99] by force
  from first_bucket_snapshot[OF ne ok p, of now] show ?thesis
    unfolding len many_errors_scenario_def es_def[symmetric] using r by auto
qed




subsection \<open>Percentiles\<close>




subsection \<open>Eviction\<close>

text \<open>
  C1. The claim holds of a 60 s sliding window, which the class documents and by whose
  length the snapshot divides for \<open>qps\<close>; the code departs from it. After 50 events at
  0 s and one event at 65 s the sub-window starting at 0 is still live, although
  \<open>0 + 5 > 65 - 60\<close> is false, and the next snapshot reports 51 requests, not 1: a
  sealed sub-window leaves the deque only when \<open>num_sub_windows\<close> later ones have been
  sealed, however old it is.
\<close>

theorem stale_bucket_is_kept:
  "init_aggregator 0 60 5 = Inr fresh_aggregator
   \<and> map window_start (all_windows eviction_scenario) = [0, 65]
   \<and> \<not> ((0 :: real) + 5 > 65 - 60)
   \<and> map_sum id (total_requests \<circ> overall) (get_current_metrics 70 eviction_scenario) = Inr 51
   \<and> map_sum id active_windows (get_current_metrics 70 eviction_scenario) = Inr 2"
  using eviction_scenario_eval[of 70] init_fresh_aggregator by auto

subsection \<open>Sub-window starts\<close>




subsection \<open>Error rate\<close>

text \<open>
  C5 (as amended). In every snapshot of an aggregator that was built by the constructor
  and fed any events, the overall \<open>error_rate\<close> is, when \<open>total_requests > 0\<close>, the float
  computation \<open>total_errors / total_requests * 100\<close> (the quotient rounded to a double,
  then the product) rounded to two decimals by \<open>round\<close>, and is 0 when
  \<open>total_requests = 0\<close>; in all cases it lies between 0 and 100, because no sub-window
  counts more errors than requests.
\<close>

theorem error_rate_of_snapshot:
  assumes "init_aggregator t0 W S = Inr s0"
    and "get_current_metrics now (foldl (add_event clk) s0 es) = Inr snap"
  shows "(total_requests (overall snap) > 0 \<longrightarrow>
            error_rate (overall snap)
              = round2 (fl (fl (of_nat (total_errors (overall snap))
                                / of_nat (total_requests (overall snap))) * 100)))
       \<and> (total_requests (overall snap) = 0 \<longrightarrow> error_rate (overall snap) = 0)
       \<and> 0 \<le> error_rate (overall snap) \<and> error_rate (overall snap) \<le> 100
       \<and> total_errors (overall snap) \<le> total_requests (overall snap)"
proof -
  define s where "s = foldl (add_event clk) s0 es"
  define r where "r = sum_list (map request_count (all_windows s))"
  define e where "e = sum_list (map error_count (all_windows s))"
  define x where "x = (if r > 0 then fl (fl (real e / real r) * 100) else 0)"
  have "counts_ok s" unfolding s_def using assms(1) by (intro counts_ok_foldl counts_ok_init)
  then have le: "e \<le> r" unfolding e_def r_def counts_ok_def by (rule sum_list_counts)
  have ov: "total_requests (overall snap) = r" "total_errors (overall snap) = e"
    "error_rate (overall snap) = round2 x"
    using get_current_metrics_overall[OF assms(2)[folded s_def]] unfolding r_def e_def x_def
    by blast+
  have rng: "0 \<le> x \<and> x \<le> 100"
  proof (cases "r > 0")
    case False
    then show ?thesis by (simp add: x_def)
  next
    case True
    then have "0 \<le> real e / real r" "real e / real r \<le> 1" using le by simp_all
    then have q: "0 \<le> fl (real e / real r)" "fl (real e / real r) \<le> 1"
      using fl_unit_interval by blast+
    then have "0 \<le> fl (real e / real r) * 100" "fl (real e / real r) * 100 \<le> 100" by simp_all
    then have "0 \<le> fl (fl (real e / real r) * 100)" "fl (fl (real e / real r) * 100) \<le> 100"
      using fl_nonneg[of "fl (real e / real r) * 100"] fl_mono[of "fl (real e / real r) * 100" 100]
      by (simp_all add: fl_hundred)
    then show ?thesis using True by (simp add: x_def)
  qed
  have b: "0 \<le> round2 x \<and> round2 x \<le> 100" using round2_bounds rng by blast
  have pos: "r > 0 \<longrightarrow> round2 x = round2 (fl (fl (real e / real r) * 100))" by (simp add: x_def)
  have zero: "r = 0 \<longrightarrow> round2 x = 0" by (simp add: x_def)
  show ?thesis unfolding ov using pos zero b le by blast
qed

theorem error_rate_of_snapshot_witness:
  "init_aggregator 0 60 5 = Inr fresh_aggregator
   \<and> get_current_metrics 10 three_requests_one_error = Inr three_requests_snapshot
   \<and> total_requests (overall three_requests_snapshot) = 3
   \<and> total_errors (overall three_requests_snapshot) = 1
   \<and> error_rate (overall three_requests_snapshot) = round2 (fl (fl (1 / 3) * 100))
   \<and> error_rate (overall three_requests_snapshot) = fl (3333 / 100)
   \<and> 0 \<le> error_rate (overall three_requests_snapshot)
   \<and> error_rate (overall three_requests_snapshot) \<le> 100"
  using error_rate_of_snapshot[OF init_fresh_aggregator
      three_requests_snapshot_eval[unfolded three_requests_one_error_def]]
    init_fresh_aggregator three_requests_snapshot_eval
  by (simp add: three_requests_snapshot_def three_requests_metrics_def)

text \<open>
  The claim as stated fails: with one error in three requests the snapshot reports
  33.33, which is not \<open>100 * 1 / 3\<close>. With 23 errors in 160 requests it reports 14.37:
  the exact rate is 14.375, whose nearest decimals with ties to even would be 14.38, but
  the float product is 14.374999999999998.
\<close>

theorem error_rate_rounding_counterexample:
  "get_current_metrics 10 three_requests_one_error = Inr three_requests_snapshot
   \<and> total_requests (overall three_requests_snapshot) = 3
   \<and> total_errors (overall three_requests_snapshot) = 1
   \<and> error_rate (overall three_requests_snapshot) = fl (3333 / 100)
   \<and> error_rate (overall three_requests_snapshot) \<noteq> 100 * 1 / 3
   \<and> map_sum id (total_requests \<circ> overall) (get_current_metrics 10 many_errors_scenario) = Inr 160
   \<and> map_sum id (total_errors \<circ> overall) (get_current_metrics 10 many_errors_scenario) = Inr 23
   \<and> map_sum id (error_rate \<circ> overall) (get_current_metrics 10 many_errors_scenario)
       = Inr (fl (1437 / 100))
   \<and> fl (1437 / 100) \<noteq> 100 * 23 / 160
   \<and> fl (fl (23 / 160) * 100) < 100 * 23 / 160
   \<and> of_int (round_half_even (100 * 23 / 160 * 100)) / 100 = (1438 / 100 :: real)
   \<and> fl (1437 / 100) < fl (1438 / 100)"
proof -
  have a: "map_sum id (total_requests \<circ> overall) (get_current_metrics 10 many_errors_scenario) = Inr 160"
    "map_sum id (total_errors \<circ> overall) (get_current_metrics 10 many_errors_scenario) = Inr 23"
    "map_sum id (error_rate \<circ> overall) (get_current_metrics 10 many_errors_scenario)
       = Inr (fl (1437 / 100))"
    using many_errors_eval[of 10] by auto
  have b: "fl (1437 / 100) \<noteq> 100 * 23 / 160" "fl (fl (23 / 160) * 100) < 100 * 23 / 160"
    "of_int (round_half_even (100 * 23 / 160 * 100)) / 100 = (1438 / 100 :: real)"
    "fl (1437 / 100) < fl (1438 / 100)"
    by (simp_all add: fl_values round_half_even_def)
  have c: "error_rate (overall three_requests_snapshot) = fl (3333 / 100)"
    "error_rate (overall three_requests_snapshot) \<noteq> 100 * 1 / 3"
    "total_requests (overall three_requests_snapshot) = 3"
    "total_errors (overall three_requests_snapshot) = 1"
    by (simp_all add: three_requests_snapshot_def three_requests_metrics_def fl_values)
  show ?thesis using three_requests_snapshot_eval a b c by blast
qed

subsection \<open>Repeated snapshots\<close>

lemma snapshot_differs_only_in_timestamp:
  "map_sum id (\<lambda>snap. snap\<lparr>snap_timestamp := t\<rparr>) (get_current_metrics now1 s)
   = map_sum id (\<lambda>snap. snap\<lparr>snap_timestamp := t\<rparr>) (get_current_metrics now2 s)"
  by (simp add: get_current_metrics_def empty_metrics_def Let_def split: sum.splits)

text \<open>
  C9 (as amended). A snapshot call changes nothing in the aggregator, and two calls
  with no event in between return results that agree in every field of every scope
  and differ at most in \<open>timestamp\<close>, which is the time of the call; both calls fail
  alike when they fail.
\<close>

theorem snapshots_agree_up_to_timestamp:
  "map_sum id (\<lambda>snap. snap\<lparr>snap_timestamp := t\<rparr>) (get_current_metrics now1 s)
     = map_sum id (\<lambda>snap. snap\<lparr>snap_timestamp := t\<rparr>) (get_current_metrics now2 s)
   \<and> (get_current_metrics now1 s = Inr snap \<longrightarrow> snap_timestamp snap = now1)"
  using snapshot_differs_only_in_timestamp[of t now1 s now2]
    get_current_metrics_overall[of now1 s snap]
  by blast

theorem snapshots_agree_up_to_timestamp_witness:
  "get_current_metrics 10 three_requests_one_error = Inr three_requests_snapshot
   \<and> snap_timestamp three_requests_snapshot = 10
   \<and> get_current_metrics 11 three_requests_one_error
       = Inr (three_requests_snapshot\<lparr>snap_timestamp := 11\<rparr>)"
proof -
  from snapshots_agree_up_to_timestamp[of 11 10 three_requests_one_error 11 three_requests_snapshot]
  have "map_sum id (\<lambda>snap. snap\<lparr>snap_timestamp := 11\<rparr>) (get_current_metrics 11 three_requests_one_error)
      = Inr (three_requests_snapshot\<lparr>snap_timestamp := 11\<rparr>)"
    and ts: "snap_timestamp three_requests_snapshot = 10"
    using three_requests_snapshot_eval by simp_all
  then obtain snap' where s': "get_current_metrics 11 three_requests_one_error = Inr snap'"
    "snap'\<lparr>snap_timestamp := 11\<rparr> = three_requests_snapshot\<lparr>snap_timestamp := 11\<rparr>"
    by (cases "get_current_metrics 11 three_requests_one_error") auto
  have "snap_timestamp snap' = 11" using get_current_metrics_overall[OF s'(1)] by simp
  then have "snap'\<lparr>snap_timestamp := 11\<rparr> = snap'" by simp
  then show ?thesis using s' ts three_requests_snapshot_eval by simp
qed

text \<open>
  The claim as stated fails: the two results of calls at different times differ in
  their \<open>timestamp\<close>.
\<close>

theorem snapshot_timestamp_counterexample:
  "get_current_metrics 10 three_requests_one_error = Inr three_requests_snapshot
   \<and> get_current_metrics 11 three_requests_one_error
       = Inr (three_requests_snapshot\<lparr>snap_timestamp := 11\<rparr>)
   \<and> get_current_metrics 10 three_requests_one_error
       \<noteq> get_current_metrics 11 three_requests_one_error"
proof -
  have a: "get_current_metrics 10 three_requests_one_error = Inr three_requests_snapshot"
    by (rule three_requests_snapshot_eval)
  have "map_sum id (\<lambda>snap. snap\<lparr>snap_timestamp := 11\<rparr>) (get_current_metrics 11 three_requests_one_error)
      = Inr (three_requests_snapshot\<lparr>snap_timestamp := 11\<rparr>)"
    using snapshot_differs_only_in_timestamp[of 11 11 three_requests_one_error 10] a by simp
  then obtain snap' where s': "get_current_metrics 11 three_requests_one_error = Inr snap'"
    "snap'\<lparr>snap_timestamp := 11\<rparr> = three_requests_snapshot\<lparr>snap_timestamp := 11\<rparr>"
    by (cases "get_current_metrics 11 three_requests_one_error") auto
  have "snap_timestamp snap' = 11" using get_current_metrics_overall[OF s'(1)] by simp
  then have "snap'\<lparr>snap_timestamp := 11\<rparr> = snap'" by simp
  then have b: "get_current_metrics 11 three_requests_one_error
       = Inr (three_requests_snapshot\<lparr>snap_timestamp := 11\<rparr>)"
    using s' by simp
  have "three_requests_snapshot \<noteq> three_requests_snapshot\<lparr>snap_timestamp := 11\<rparr>"
    by (simp add: three_requests_snapshot_def)
  then show ?thesis using a b by simp
qed

subsection \<open>Latency zero\<close>



subsection \<open>The per-service and per-endpoint aggregation\<close>


















section \<open>Properties of the storage manager\<close>

lemma try_batch_insert_fails:
  assumes "postgres_pool s = None \<or> outcome = AcquireRaises \<or> outcome = InsertRaises"
  shows "\<exists>err. try_batch_insert now outcome s = Inl err"
proof (cases "postgres_pool s")
  case None
  then show ?thesis by (simp add: try_batch_insert_def)
next
  case (Some pool)
  then have "outcome = AcquireRaises \<or> outcome = InsertRaises" using assms by simp
  then show ?thesis using Some by (auto simp add: try_batch_insert_def)
qed

text \<open>
  C8. When a flush of a non-empty pending buffer fails (the pool is missing, or the
  connection borrow or the insert raises), \<open>_execute_batch_write\<close> returns normally,
  and the storage manager differs from the one before only in this: the error is
  logged, \<open>failed_writes\<close> is one higher, the pending buffer is empty (the rows are
  gone, not kept for a retry) and the batch timer is reset to the current time.
\<close>

theorem flush_failure_clears_batch:
  assumes "pending_metrics s \<noteq> []"
    and "postgres_pool s = None \<or> outcome = AcquireRaises \<or> outcome = InsertRaises"
  shows "\<exists>err. execute_batch_write now outcome s =
           Inr (s\<lparr>storage_log := storage_log s @ [BatchWriteFailed err],
                   failed_writes := failed_writes s + 1,
                   pending_metrics := [],
                   last_batch_time := now\<rparr>)"
proof -
  obtain err where "try_batch_insert now outcome s = Inl err"
    using try_batch_insert_fails[OF assms(2)] by blast
  then have "execute_batch_write now outcome s =
           Inr (s\<lparr>storage_log := storage_log s @ [BatchWriteFailed err],
                   failed_writes := failed_writes s + 1,
                   pending_metrics := [],
                   last_batch_time := now\<rparr>)"
    using assms(1) by (simp add: execute_batch_write_def)
  then show ?thesis by (rule exI)
qed


lemma pending_storage_state:
  "length (pending_metrics pending_storage) = 3"
  "storage_log pending_storage = []"
  "failed_writes pending_storage = 0"
  "postgres_pool pending_storage = Some ()"
  by (simp_all add: pending_storage_def add_to_batch_def init_storage_manager_def
      three_requests_snapshot_def Let_def)

theorem flush_failure_clears_batch_witness:
  "length (pending_metrics pending_storage) = 3
   \<and> execute_batch_write 20 InsertRaises pending_storage =
       Inr (pending_storage\<lparr>storage_log := [BatchWriteFailed DatabaseError],
                             failed_writes := 1, pending_metrics := [],
                             last_batch_time := 20\<rparr>)"
proof -
  have ne: "pending_metrics pending_storage \<noteq> []"
    using pending_storage_state(1) by (cases "pending_metrics pending_storage") simp_all
  have "try_batch_insert 20 InsertRaises pending_storage = Inl DatabaseError"
    by (simp add: try_batch_insert_def pending_storage_state)
  then have direct: "execute_batch_write 20 InsertRaises pending_storage =
       Inr (pending_storage\<lparr>storage_log := [BatchWriteFailed DatabaseError],
                             failed_writes := 1, pending_metrics := [],
                             last_batch_time := 20\<rparr>)"
    using ne by (simp add: execute_batch_write_def pending_storage_state)
  have "\<exists>err. execute_batch_write 20 InsertRaises pending_storage =
           Inr (pending_storage\<lparr>storage_log := storage_log pending_storage @ [BatchWriteFailed err],
                   failed_writes := failed_writes pending_storage + 1,
                   pending_metrics := [],
                   last_batch_time := 20\<rparr>)"
    by (rule flush_failure_clears_batch[OF ne]) simp
  then show ?thesis using direct pending_storage_state(1) by blast
qed

section \<open>Properties of the alert manager\<close>

lemmas alert_eval = check_metrics_def check_overall_metrics_def check_service_metrics_def
  check_endpoint_metrics_def skipped_overall_def skipped_service_def skipped_endpoint_def
  evaluate_rule_def evaluate_condition_def generate_alert_id_def trigger_alert_def
  resolve_alert_def truthy_def split_key_def last_items_def init_alert_manager_def
  default_rules_def scope_dict_def snapshot_data_def Let_def fl_numeral fl_values

lemma alerting_manager_alerts:
  "active_alerts alerting_manager =
     [(''high_error_rate'', 0), (''high_error_rate:svc'', 1), (''high_error_rate:svc:/predict'', 2)]"
  "map a_service_name (alert_objects alerting_manager) = [None, Some ''svc'', Some ''svc'']"
  "map endpoint (alert_objects alerting_manager) = [None, None, Some ''/predict'']"
  "map severity (alert_objects alerting_manager) = [HIGH, HIGH, HIGH]"
  "map status (alert_objects alerting_manager) = [TRIGGERED, TRIGGERED, TRIGGERED]"
  "map fst (notifications alerting_manager) = [''notify'', ''notify'', ''notify'']"
  by (simp_all add: alerting_manager_def only_high_error_rate_def three_requests_snapshot_def
      three_requests_metrics_def alert_eval)




lemma high_error_rate_rule_fields:
  "metric_type high_error_rate_rule = ''error_rate''"
  "operator high_error_rate_rule = ''>''"
  "r_threshold high_error_rate_rule = 5"
  "r_id high_error_rate_rule = ''high_error_rate''"
  "enabled high_error_rate_rule"
  "r_service_name high_error_rate_rule = None"
  "r_endpoint high_error_rate_rule = None"
  by (simp_all add: high_error_rate_rule_def default_rules_def)




subsection \<open>One check as a sequence of rule evaluations\<close>

lemma alert_rules_evaluate_rule [simp]:
  "alert_rules (evaluate_rule now s rule m service ep) = alert_rules s"
  by (simp add: evaluate_rule_def trigger_alert_def resolve_alert_def Let_def split: option.splits)

lemma run_evaluations_append:
  "run_evaluations now s (xs @ ys) = run_evaluations now (run_evaluations now s xs) ys"
  by (simp add: run_evaluations_def)

lemma alert_rules_run_evaluations [simp]:
  "alert_rules (run_evaluations now s evs) = alert_rules s"
proof (induction evs arbitrary: s)
  case Nil
  then show ?case by (simp add: run_evaluations_def)
next
  case (Cons ev evs)
  obtain rule m sv ep where ev: "ev = (rule, m, sv, ep)" by (cases ev)
  have "run_evaluations now s (ev # evs)
      = run_evaluations now (evaluate_rule now s rule m sv ep) evs"
    by (simp add: run_evaluations_def ev)
  then show ?case by (simp add: Cons.IH)
qed

lemma foldl_skipping:
  "foldl (\<lambda>st rule. if skip rule then st else f st rule) s rules
     = foldl f s (filter (\<lambda>rule. \<not> skip rule) rules)"
  by (induction rules arbitrary: s) simp_all

lemma run_evaluations_map:
  "run_evaluations now s (map (\<lambda>rule. (rule, m, sv, ep)) rules)
     = foldl (\<lambda>st rule. evaluate_rule now st rule m sv ep) s rules"
  by (induction rules arbitrary: s) (simp_all add: run_evaluations_def)

lemma check_overall_metrics_evaluations:
  "check_overall_metrics now s m
     = run_evaluations now s (overall_evaluations (map snd (alert_rules s)) m)"
  by (simp add: check_overall_metrics_def overall_evaluations_def run_evaluations_map
      foldl_skipping)

lemma check_service_metrics_evaluations:
  "check_service_metrics now s name m
     = run_evaluations now s (service_evaluations (map snd (alert_rules s)) name m)"
  by (simp add: check_service_metrics_def service_evaluations_def run_evaluations_map
      foldl_skipping)

lemma check_endpoint_metrics_evaluations:
  "check_endpoint_metrics now s k m
     = run_evaluations now s (endpoint_evaluations (map snd (alert_rules s)) k m)"
  by (cases "split_key k")
     (simp add: check_endpoint_metrics_def endpoint_evaluations_def run_evaluations_map
        foldl_skipping)

lemma services_evaluations:
  "foldl (\<lambda>st (name, m). check_service_metrics now st name m) s svcs
     = run_evaluations now s
         (concat (map (\<lambda>(name, m). service_evaluations (map snd (alert_rules s)) name m) svcs))"
proof (induction svcs arbitrary: s)
  case Nil
  then show ?case by (simp add: run_evaluations_def)
next
  case (Cons it svcs)
  obtain name m where it: "it = (name, m)" by (cases it)
  define s' where "s' = check_service_metrics now s name m"
  have r: "alert_rules s' = alert_rules s"
    and e: "s' = run_evaluations now s (service_evaluations (map snd (alert_rules s)) name m)"
    by (simp_all add: s'_def check_service_metrics_evaluations)
  have "foldl (\<lambda>st (name, m). check_service_metrics now st name m) s (it # svcs)
      = foldl (\<lambda>st (name, m). check_service_metrics now st name m) s' svcs"
    by (simp add: it s'_def)
  also have "\<dots> = run_evaluations now s'
         (concat (map (\<lambda>(name, m). service_evaluations (map snd (alert_rules s')) name m) svcs))"
    by (rule Cons.IH)
  finally show ?case
    unfolding r unfolding e by (simp add: it run_evaluations_append)
qed

lemma endpoints_evaluations:
  "foldl (\<lambda>st (k, m). check_endpoint_metrics now st k m) s eps
     = run_evaluations now s
         (concat (map (\<lambda>(k, m). endpoint_evaluations (map snd (alert_rules s)) k m) eps))"
proof (induction eps arbitrary: s)
  case Nil
  then show ?case by (simp add: run_evaluations_def)
next
  case (Cons it eps)
  obtain k m where it: "it = (k, m)" by (cases it)
  define s' where "s' = check_endpoint_metrics now s k m"
  have r: "alert_rules s' = alert_rules s"
    and e: "s' = run_evaluations now s (endpoint_evaluations (map snd (alert_rules s)) k m)"
    by (simp_all add: s'_def check_endpoint_metrics_evaluations)
  have "foldl (\<lambda>st (k, m). check_endpoint_metrics now st k m) s (it # eps)
      = foldl (\<lambda>st (k, m). check_endpoint_metrics now st k m) s' eps"
    by (simp add: it s'_def)
  also have "\<dots> = run_evaluations now s'
         (concat (map (\<lambda>(k, m). endpoint_evaluations (map snd (alert_rules s')) k m) eps))"
    by (rule Cons.IH)
  finally show ?case
    unfolding r unfolding e by (simp add: it run_evaluations_append)
qed

text \<open>One check runs the evaluations of the overall scope, of every service and of every endpoint.\<close>

lemma check_metrics_evaluations:
  "check_metrics now s md
     = run_evaluations now
         (s\<lparr>rule_checks_performed := rule_checks_performed s + 1, last_check_time := Some now\<rparr>)
         (evaluations (map snd (alert_rules s)) md)"
  by (simp add: check_metrics_def Let_def evaluations_def check_overall_metrics_evaluations
      services_evaluations endpoints_evaluations run_evaluations_append)

lemma unscoped_rule_evaluations:
  assumes "enabled rule" "\<not> truthy (r_service_name rule)" "\<not> truthy (r_endpoint rule)"
    and "rule \<in> set rules"
  shows "(rule, md_overall md, None, None) \<in> set (evaluations rules md)"
    and "(name, m) \<in> set (md_services md) \<Longrightarrow> (rule, m, Some name, None) \<in> set (evaluations rules md)"
    and "(k, m) \<in> set (md_endpoints md) \<Longrightarrow>
           (rule, m, fst (split_key k), snd (split_key k)) \<in> set (evaluations rules md)"
proof -
  have f: "\<not> skipped_overall rule" "\<not> skipped_service rule name"
    "\<not> skipped_endpoint rule (fst (split_key k)) (snd (split_key k))"
    using assms(1-3) by (simp_all add: skipped_overall_def skipped_service_def skipped_endpoint_def)
  show "(rule, md_overall md, None, None) \<in> set (evaluations rules md)"
    using assms(4) f(1) by (simp add: evaluations_def overall_evaluations_def)
  show "(rule, m, Some name, None) \<in> set (evaluations rules md)" if "(name, m) \<in> set (md_services md)"
  proof -
    have "(rule, m, Some name, None) \<in> set (service_evaluations rules name m)"
      using assms(4) f(2) by (simp add: service_evaluations_def)
    then show ?thesis using that by (force simp: evaluations_def)
  qed
  show "(rule, m, fst (split_key k), snd (split_key k)) \<in> set (evaluations rules md)"
    if "(k, m) \<in> set (md_endpoints md)"
  proof -
    have "(rule, m, fst (split_key k), snd (split_key k)) \<in> set (endpoint_evaluations rules k m)"
      using assms(4) f(3) by (simp add: endpoint_evaluations_def)
    then show ?thesis using that by (force simp: evaluations_def)
  qed
qed

text \<open>
  C2 (as amended). An enabled rule with no service name and no endpoint passes all
  three filters: it is evaluated on the overall metrics, on every service entry and on
  every endpoint entry of the snapshot. One \<open>check_metrics\<close> call is, after the two
  counters are updated, the sequence of rule evaluations \<open>evaluations\<close>: on the overall
  metrics for every rule that passes the overall filter, then on each service entry for
  every rule that passes the service filter, then on each endpoint entry for every rule
  that passes the endpoint filter. An alert that rule evaluation creates carries
  the scope it was evaluated on. From a new alert manager and a snapshot with overall
  metrics only, the built-in \<open>error_rate > 5.0\<close> rule triggers exactly one alert, of
  severity high and with neither service nor endpoint, when the error rate is above 5
  and no other built-in threshold is crossed; with an error rate of exactly 5 nothing
  is triggered.
\<close>

theorem unscoped_rule_checked_on_every_scope:
  "(enabled rule \<and> \<not> truthy (r_service_name rule) \<and> \<not> truthy (r_endpoint rule) \<longrightarrow>
      \<not> skipped_overall rule \<and> \<not> skipped_service rule sv \<and> \<not> skipped_endpoint rule svo epo)
   \<and> check_metrics now s md
       = run_evaluations now
           (s\<lparr>rule_checks_performed := rule_checks_performed s + 1, last_check_time := Some now\<rparr>)
           (evaluations (map snd (alert_rules s)) md)
   \<and> (enabled rule \<and> \<not> truthy (r_service_name rule) \<and> \<not> truthy (r_endpoint rule)
        \<and> rule \<in> set (map snd (alert_rules s)) \<longrightarrow>
        (rule, md_overall md, None, None) \<in> set (evaluations (map snd (alert_rules s)) md)
      \<and> (\<forall>(name, sm) \<in> set (md_services md).
            (rule, sm, Some name, None) \<in> set (evaluations (map snd (alert_rules s)) md))
      \<and> (\<forall>(k, em) \<in> set (md_endpoints md).
            (rule, em, fst (split_key k), snd (split_key k))
              \<in> set (evaluations (map snd (alert_rules s)) md)))
   \<and> (map_of m (metric_type rule) = Some v
        \<and> evaluate_condition v (operator rule) (r_threshold rule)
        \<and> map_of (active_alerts s) (generate_alert_id rule service ep) = None \<longrightarrow>
        evaluate_rule now s rule m service ep =
          trigger_alert s
            \<lparr>alert_id = generate_alert_id rule service ep, rule_id = r_id rule,
             rule_name = r_name rule, severity = r_severity rule, status = TRIGGERED,
             metric_value = v, threshold = r_threshold rule, a_service_name = service,
             endpoint = ep, triggered_at = now, resolved_at = None, acknowledged_at = None\<rparr>)
   \<and> (1 \<le> qps mt \<and> p95_response_time mt \<le> 1000 \<and> p99_response_time mt \<le> 5000 \<longrightarrow>
        (5 < error_rate mt \<and> error_rate mt \<le> 10 \<longrightarrow>
           active_alerts (check_metrics now (init_alert_manager born) (overall_only mt))
             = [(''high_error_rate'', 0)]
         \<and> map severity (alert_objects (check_metrics now (init_alert_manager born) (overall_only mt)))
             = [HIGH]
         \<and> map a_service_name (alert_objects (check_metrics now (init_alert_manager born) (overall_only mt)))
             = [None]
         \<and> map endpoint (alert_objects (check_metrics now (init_alert_manager born) (overall_only mt)))
             = [None])
        \<and> (error_rate mt = 5 \<longrightarrow>
             active_alerts (check_metrics now (init_alert_manager born) (overall_only mt)) = []
           \<and> alert_objects (check_metrics now (init_alert_manager born) (overall_only mt)) = []))"
proof -
  have filters: "\<not> skipped_overall rule \<and> \<not> skipped_service rule sv \<and> \<not> skipped_endpoint rule svo epo"
    if "enabled rule" "\<not> truthy (r_service_name rule)" "\<not> truthy (r_endpoint rule)"
    using that by (simp add: skipped_overall_def skipped_service_def skipped_endpoint_def)
  have mem: "(rule, md_overall md, None, None) \<in> set (evaluations (map snd (alert_rules s)) md)
      \<and> (\<forall>(name, sm) \<in> set (md_services md).
            (rule, sm, Some name, None) \<in> set (evaluations (map snd (alert_rules s)) md))
      \<and> (\<forall>(k, em) \<in> set (md_endpoints md).
            (rule, em, fst (split_key k), snd (split_key k))
              \<in> set (evaluations (map snd (alert_rules s)) md))"
    if "enabled rule" "\<not> truthy (r_service_name rule)" "\<not> truthy (r_endpoint rule)"
      "rule \<in> set (map snd (alert_rules s))"
    using unscoped_rule_evaluations[OF that] by blast
  have trig: "evaluate_rule now s rule m service ep =
          trigger_alert s
            \<lparr>alert_id = generate_alert_id rule service ep, rule_id = r_id rule,
             rule_name = r_name rule, severity = r_severity rule, status = TRIGGERED,
             metric_value = v, threshold = r_threshold rule, a_service_name = service,
             endpoint = ep, triggered_at = now, resolved_at = None, acknowledged_at = None\<rparr>"
    if "map_of m (metric_type rule) = Some v" "evaluate_condition v (operator rule) (r_threshold rule)"
      "map_of (active_alerts s) (generate_alert_id rule service ep) = None"
    using that by (simp add: evaluate_rule_def Let_def)
  have above: "active_alerts (check_metrics now (init_alert_manager born) (overall_only mt))
             = [(''high_error_rate'', 0)]
         \<and> map severity (alert_objects (check_metrics now (init_alert_manager born) (overall_only mt)))
             = [HIGH]
         \<and> map a_service_name (alert_objects (check_metrics now (init_alert_manager born) (overall_only mt)))
             = [None]
         \<and> map endpoint (alert_objects (check_metrics now (init_alert_manager born) (overall_only mt)))
             = [None]"
    if "1 \<le> qps mt" "p95_response_time mt \<le> 1000" "p99_response_time mt \<le> 5000"
      "5 < error_rate mt" "error_rate mt \<le> 10"
    using that by (simp add: overall_only_def alert_eval)
  have exact: "active_alerts (check_metrics now (init_alert_manager born) (overall_only mt)) = []
           \<and> alert_objects (check_metrics now (init_alert_manager born) (overall_only mt)) = []"
    if "1 \<le> qps mt" "p95_response_time mt \<le> 1000" "p99_response_time mt \<le> 5000"
      "error_rate mt = 5"
    using that by (simp add: overall_only_def alert_eval)
  show ?thesis
    using filters mem trig above exact check_metrics_evaluations[of now s md] by blast
qed

theorem unscoped_rule_checked_on_every_scope_witness:
  "enabled high_error_rate_rule
   \<and> \<not> skipped_overall high_error_rate_rule
   \<and> \<not> skipped_service high_error_rate_rule ''svc''
   \<and> \<not> skipped_endpoint high_error_rate_rule (Some ''svc'') (Some ''/predict'')
   \<and> high_error_rate_rule \<in> set (map snd (alert_rules only_high_error_rate))
   \<and> map (\<lambda>(r, ms, sv, ep). (r_id r, map_of ms ''error_rate'', sv, ep))
        (evaluations (map snd (alert_rules only_high_error_rate))
           (snapshot_data three_requests_snapshot))
       = [(''high_error_rate'', Some (fl (3333 / 100)), None, None),
          (''high_error_rate'', Some (fl (3333 / 100)), Some ''svc'', None),
          (''high_error_rate'', Some (fl (3333 / 100)), Some ''svc'', Some ''/predict'')]
   \<and> (high_error_rate_rule, scope_dict three_requests_metrics, Some ''svc'', None)
       \<in> set (evaluations (map snd (alert_rules only_high_error_rate))
                (snapshot_data three_requests_snapshot))
   \<and> (high_error_rate_rule, scope_dict three_requests_metrics, Some ''svc'', Some ''/predict'')
       \<in> set (evaluations (map snd (alert_rules only_high_error_rate))
                (snapshot_data three_requests_snapshot))
   \<and> map (a_service_name \<circ> snd)
        (notifications (check_metrics 20 only_high_error_rate (snapshot_data three_requests_snapshot)))
       = [None, Some ''svc'', Some ''svc'']
   \<and> map_of (scope_dict six_percent_metrics) (metric_type high_error_rate_rule) = Some 6
   \<and> a_service_name (last (alert_objects (evaluate_rule 20 (init_alert_manager 0)
         high_error_rate_rule (scope_dict six_percent_metrics) (Some ''svc'') None))) = Some ''svc''
   \<and> active_alerts (check_metrics 20 (init_alert_manager 0) (overall_only six_percent_metrics))
         = [(''high_error_rate'', 0)]
   \<and> active_alerts (check_metrics 20 (init_alert_manager 0) (overall_only five_percent_metrics))
         = []"
proof -
  note t6 = unscoped_rule_checked_on_every_scope[where rule = high_error_rate_rule
      and sv = "''svc''" and svo = "Some ''svc''" and epo = "Some ''/predict''"
      and m = "scope_dict six_percent_metrics" and v = 6 and s = "init_alert_manager 0"
      and service = "Some ''svc''" and ep = None and now = 20 and born = 0
      and mt = six_percent_metrics]
  note t5 = unscoped_rule_checked_on_every_scope[where rule = high_error_rate_rule
      and sv = "''svc''" and svo = "Some ''svc''" and epo = "Some ''/predict''"
      and m = "scope_dict six_percent_metrics" and v = 6 and s = "init_alert_manager 0"
      and service = "Some ''svc''" and ep = None and now = 20 and born = 0
      and mt = five_percent_metrics]
  note t3 = unscoped_rule_checked_on_every_scope[where rule = high_error_rate_rule
      and sv = "''svc''" and svo = "Some ''svc''" and epo = "Some ''/predict''"
      and s = only_high_error_rate and md = "snapshot_data three_requests_snapshot" and now = 20]
  have en: "enabled high_error_rate_rule" "\<not> truthy (r_service_name high_error_rate_rule)"
    "\<not> truthy (r_endpoint high_error_rate_rule)"
    by (simp_all add: high_error_rate_rule_fields truthy_def)
  have inr: "high_error_rate_rule \<in> set (map snd (alert_rules only_high_error_rate))"
    by (simp add: only_high_error_rate_def high_error_rate_rule_def init_alert_manager_def
        default_rules_def)
  have md: "md_services (snapshot_data three_requests_snapshot)
              = [(''svc'', scope_dict three_requests_metrics)]"
    "md_endpoints (snapshot_data three_requests_snapshot)
              = [(''svc:/predict'', scope_dict three_requests_metrics)]"
    "split_key ''svc:/predict'' = (Some ''svc'', Some ''/predict'')"
    by (simp_all add: snapshot_data_def three_requests_snapshot_def split_key_def)
  have evs: "map (\<lambda>(r, ms, sv, ep). (r_id r, map_of ms ''error_rate'', sv, ep))
        (evaluations (map snd (alert_rules only_high_error_rate))
           (snapshot_data three_requests_snapshot))
       = [(''high_error_rate'', Some (fl (3333 / 100)), None, None),
          (''high_error_rate'', Some (fl (3333 / 100)), Some ''svc'', None),
          (''high_error_rate'', Some (fl (3333 / 100)), Some ''svc'', Some ''/predict'')]"
    by (simp add: evaluations_def overall_evaluations_def service_evaluations_def
        endpoint_evaluations_def only_high_error_rate_def init_alert_manager_def
        default_rules_def skipped_overall_def skipped_service_def skipped_endpoint_def
        truthy_def split_key_def snapshot_data_def three_requests_snapshot_def
        three_requests_metrics_def scope_dict_def)
  have mem: "(high_error_rate_rule, scope_dict three_requests_metrics, Some ''svc'', None)
       \<in> set (evaluations (map snd (alert_rules only_high_error_rate))
                (snapshot_data three_requests_snapshot))"
    "(high_error_rate_rule, scope_dict three_requests_metrics, Some ''svc'', Some ''/predict'')
       \<in> set (evaluations (map snd (alert_rules only_high_error_rate))
                (snapshot_data three_requests_snapshot))"
    using t3 en inr md by simp_all
  have ntf: "map (a_service_name \<circ> snd)
        (notifications (check_metrics 20 only_high_error_rate (snapshot_data three_requests_snapshot)))
       = [None, Some ''svc'', Some ''svc'']"
    by (simp add: only_high_error_rate_def three_requests_snapshot_def
        three_requests_metrics_def alert_eval)
  have m6: "map_of (scope_dict six_percent_metrics) (metric_type high_error_rate_rule) = Some 6"
    by (simp add: scope_dict_def six_percent_metrics_def high_error_rate_rule_fields)
  have c6: "evaluate_condition 6 (operator high_error_rate_rule) (r_threshold high_error_rate_rule)"
    by (simp add: evaluate_condition_def high_error_rate_rule_fields)
  have fresh: "map_of (active_alerts (init_alert_manager 0))
      (generate_alert_id high_error_rate_rule (Some ''svc'') None) = None"
    by (simp add: init_alert_manager_def)
  have r6: "1 \<le> qps six_percent_metrics" "p95_response_time six_percent_metrics \<le> 1000"
    "p99_response_time six_percent_metrics \<le> 5000" "5 < error_rate six_percent_metrics"
    "error_rate six_percent_metrics \<le> 10"
    by (simp_all add: six_percent_metrics_def)
  have r5: "1 \<le> qps five_percent_metrics" "p95_response_time five_percent_metrics \<le> 1000"
    "p99_response_time five_percent_metrics \<le> 5000" "error_rate five_percent_metrics = 5"
    by (simp_all add: five_percent_metrics_def)
  have f: "\<not> skipped_overall high_error_rate_rule \<and> \<not> skipped_service high_error_rate_rule ''svc''
      \<and> \<not> skipped_endpoint high_error_rate_rule (Some ''svc'') (Some ''/predict'')"
    using t6 en by blast
  have "evaluate_rule 20 (init_alert_manager 0) high_error_rate_rule (scope_dict six_percent_metrics)
          (Some ''svc'') None =
          trigger_alert (init_alert_manager 0)
            \<lparr>alert_id = generate_alert_id high_error_rate_rule (Some ''svc'') None,
             rule_id = r_id high_error_rate_rule,
             rule_name = r_name high_error_rate_rule, severity = r_severity high_error_rate_rule,
             status = TRIGGERED, metric_value = 6, threshold = r_threshold high_error_rate_rule,
             a_service_name = Some ''svc'', endpoint = None, triggered_at = 20,
             resolved_at = None, acknowledged_at = None\<rparr>"
    using t6 m6 c6 fresh by blast
  then have l: "a_service_name (last (alert_objects (evaluate_rule 20 (init_alert_manager 0)
         high_error_rate_rule (scope_dict six_percent_metrics) (Some ''svc'') None))) = Some ''svc''"
    by (simp add: trigger_alert_def Let_def)
  have a6: "active_alerts (check_metrics 20 (init_alert_manager 0) (overall_only six_percent_metrics))
         = [(''high_error_rate'', 0)]"
    using t6 r6 by blast
  have a5: "active_alerts (check_metrics 20 (init_alert_manager 0) (overall_only five_percent_metrics))
         = []"
    using t5 r5 by blast
  show ?thesis using en(1) f inr evs mem ntf m6 l a6 a5 by blast
qed

text \<open>
  The claim as stated fails: with only the built-in \<open>error_rate > 5.0\<close> rule enabled and
  the snapshot of three requests of one service and endpoint, one of them an error,
  one check triggers three alerts, for the overall scope, the service and the endpoint.
  And the snapshot of 100 events with 5 errors has an error rate of exactly 5, which
  the rule's \<open>>\<close> does not accept.
\<close>

theorem scope_leak_counterexample:
  "map (enabled \<circ> snd) (alert_rules only_high_error_rate) = [True, False, False, False, False]
   \<and> get_current_metrics 10 three_requests_one_error = Inr three_requests_snapshot
   \<and> active_alerts (check_metrics 20 only_high_error_rate (snapshot_data three_requests_snapshot))
       = [(''high_error_rate'', 0), (''high_error_rate:svc'', 1), (''high_error_rate:svc:/predict'', 2)]
   \<and> map a_service_name
         (alert_objects (check_metrics 20 only_high_error_rate (snapshot_data three_requests_snapshot)))
       = [None, Some ''svc'', Some ''svc'']
   \<and> map endpoint
         (alert_objects (check_metrics 20 only_high_error_rate (snapshot_data three_requests_snapshot)))
       = [None, None, Some ''/predict'']
   \<and> map_sum id (error_rate \<circ> overall) (get_current_metrics 10 mixed_errors_scenario) = Inr 5
   \<and> \<not> evaluate_condition 5 (operator high_error_rate_rule) (r_threshold high_error_rate_rule)"
proof -
  have "map (enabled \<circ> snd) (alert_rules only_high_error_rate) = [True, False, False, False, False]"
    by (simp add: only_high_error_rate_def init_alert_manager_def default_rules_def)
  moreover have "map_sum id (error_rate \<circ> overall) (get_current_metrics 10 mixed_errors_scenario) = Inr 5"
    using mixed_errors_eval[of 10] by auto
  moreover have "\<not> evaluate_condition 5 (operator high_error_rate_rule) (r_threshold high_error_rate_rule)"
    by (simp add: evaluate_condition_def high_error_rate_rule_fields)
  ultimately show ?thesis
    using alerting_manager_alerts(1,2,3) three_requests_snapshot_eval
    unfolding alerting_manager_def by blast
qed

end
